theory Spec2Isabelle
  imports Complex_Main "HOL-Library.Log_Nat"
begin

section \<open>The calculation core of the preload calculator\<close>

text \<open>
  The two modules \<^verbatim>\<open>src/core/preload.py\<close> and \<^verbatim>\<open>src/core/torque.py\<close> are pure
  functions over Python numbers. They are embedded at two levels of detail.

  In the first, a Python \<^verbatim>\<open>float\<close> (or \<^verbatim>\<open>int\<close>) is a \<^typ>\<open>real\<close>: comparisons,
  \<^verbatim>\<open>+\<close>, \<^verbatim>\<open>-\<close>, \<^verbatim>\<open>*\<close> and \<^verbatim>\<open>/\<close> are the exact ones. This level carries the
  guards, their order, the formulas, the error raised and the strings returned, and it
  is used for the properties of \<^verbatim>\<open>calculate_preload\<close>, of the guards of
  \<^verbatim>\<open>calculate_final_torque\<close> and of \<^verbatim>\<open>assess_risk\<close>.

  In the second, a \<^verbatim>\<open>float\<close> is an IEEE-754 binary64 number and every arithmetic
  operation rounds to nearest, ties to even, overflows to an infinity and underflows
  through the subnormal numbers. This level is used where rounding decides: the
  agreement of the two final-torque methods, the sum of the two torque components, and
  the chain from torque to safety factor. The arguments are floats, as the type
  annotations of the source say.

  In both, what Python does beyond returning a number is written out:
  \<^verbatim>\<open>raise ValueError(msg)\<close>, the \<^verbatim>\<open>ZeroDivisionError\<close> of \<^verbatim>\<open>a / b\<close> with \<^verbatim>\<open>b == 0\<close> and
  the \<^verbatim>\<open>OverflowError\<close> of \<^verbatim>\<open>x ** 2\<close> are the \<open>Inl\<close> values of a sum type.
\<close>

subsection \<open>Errors and Python's division\<close>

datatype py_error = ValueError string | ZeroDivisionError | OverflowError

type_synonym 'a result = "py_error + 'a"

text \<open>The specification's single error kind, invalid-argument, is Python's \<^verbatim>\<open>ValueError\<close>.\<close>

fun is_invalid_argument :: "'a result \<Rightarrow> bool" where
  "is_invalid_argument (Inl (ValueError msg)) = True"
| "is_invalid_argument (Inl ZeroDivisionError) = False"
| "is_invalid_argument (Inl OverflowError) = False"
| "is_invalid_argument (Inr v) = False"

fun raises :: "'a result \<Rightarrow> bool" where
  "raises (Inl e) = True"
| "raises (Inr v) = False"

text \<open>\<^verbatim>\<open>a / b\<close> on Python numbers: a zero divisor raises, anything else divides.\<close>

definition py_truediv :: "real \<Rightarrow> real \<Rightarrow> real result" where
  "py_truediv a b = (if b = 0 then Inl ZeroDivisionError else Inr (a / b))"

text \<open>
  \<^verbatim>\<open>math.pi\<close> is a constant of type \<^verbatim>\<open>float\<close>: the IEEE-754 double nearest to the
  circle constant, bit pattern \<^verbatim>\<open>0x400921FB54442D18\<close>, which is the rational number
  \<open>884279719003555 / 2 ^ 48\<close> (printed by Python as \<^verbatim>\<open>3.141592653589793\<close>).
\<close>

definition math_pi :: real where
  "math_pi = 884279719003555 / 281474976710656"

subsection \<open>\<^verbatim>\<open>src/core/preload.py\<close>\<close>

text \<open>
  \<^verbatim>\<open>
  def calculate_preload(tightening_torque, removal_torque, thread_pitch):
      if thread_pitch <= 0:
          raise ValueError("Thread pitch must be greater than zero")
      return (tightening_torque - removal_torque) * math.pi / thread_pitch
  \<close>
\<close>

definition calculate_preload :: "real \<Rightarrow> real \<Rightarrow> real \<Rightarrow> real result" where
  "calculate_preload tightening_torque removal_torque thread_pitch =
     (if thread_pitch \<le> 0
      then Inl (ValueError ''Thread pitch must be greater than zero'')
      else py_truediv ((tightening_torque - removal_torque) * math_pi) thread_pitch)"

text \<open>
  \<^verbatim>\<open>
  def calculate_final_torque(initial_torque, removal_torque, initial_preload,
                             desired_preload, thread_pitch, use_ratio_method=False):
      if thread_pitch <= 0:
          raise ValueError("Thread pitch must be greater than zero")
      if initial_torque <= removal_torque:
          raise ValueError("Initial torque must be greater than removal torque")
      ratio_method = initial_torque * (desired_preload / initial_preload)
      exact_method = (thread_pitch * initial_torque * desired_preload) / (math.pi * (initial_torque - removal_torque))
      return ratio_method if use_ratio_method else exact_method
  \<close>
  Both local variables are assigned before the flag is looked at, in this order, so the
  division of \<^verbatim>\<open>ratio_method\<close> is evaluated on every call that passes the two guards.
\<close>

definition calculate_final_torque ::
  "real \<Rightarrow> real \<Rightarrow> real \<Rightarrow> real \<Rightarrow> real \<Rightarrow> bool \<Rightarrow> real result" where
  "calculate_final_torque initial_torque removal_torque initial_preload desired_preload
       thread_pitch use_ratio_method =
     (if thread_pitch \<le> 0
      then Inl (ValueError ''Thread pitch must be greater than zero'')
      else if initial_torque \<le> removal_torque
      then Inl (ValueError ''Initial torque must be greater than removal torque'')
      else
        (case py_truediv desired_preload initial_preload of
           Inl e \<Rightarrow> Inl e
         | Inr q \<Rightarrow>
             (let ratio_method = initial_torque * q in
               (case py_truediv (thread_pitch * initial_torque * desired_preload)
                                (math_pi * (initial_torque - removal_torque)) of
                  Inl e \<Rightarrow> Inl e
                | Inr exact_method \<Rightarrow>
                    Inr (if use_ratio_method then ratio_method else exact_method)))))"

subsection \<open>\<^verbatim>\<open>src/core/torque.py\<close>: the risk bands\<close>

text \<open>
  \<^verbatim>\<open>
  def assess_risk(safety_factor, min_safety_factor=1.5):
      if safety_factor < 0:
          raise ValueError("Safety factor must be positive")
      if safety_factor > 3.0:
          risk_level = "Low"
          recommendation = "Safe for use with standard protocol"
      elif safety_factor >= min_safety_factor:
          risk_level = "Medium"
          recommendation = "Safe for use, but consider more frequent check-ups"
      else:
          risk_level = "High"
          recommendation = "Not recommended, consider alternative implant system or reduced loading"
      return risk_level, recommendation
  \<close>
\<close>

definition assess_risk :: "real \<Rightarrow> real \<Rightarrow> (string \<times> string) result" where
  "assess_risk safety_factor min_safety_factor =
     (if safety_factor < 0 then Inl (ValueError ''Safety factor must be positive'')
      else if safety_factor > 3 then
        Inr (''Low'', ''Safe for use with standard protocol'')
      else if safety_factor \<ge> min_safety_factor then
        Inr (''Medium'', ''Safe for use, but consider more frequent check-ups'')
      else
        Inr (''High'',
             ''Not recommended, consider alternative implant system or reduced loading''))"

text \<open>The default of the keyword argument \<^verbatim>\<open>min_safety_factor=1.5\<close>.\<close>

definition default_min_safety_factor :: real where
  "default_min_safety_factor = 3 / 2"

subsection \<open>Reading results\<close>



fun approx :: "real result \<Rightarrow> real \<Rightarrow> real \<Rightarrow> bool" where
  "approx (Inr v) expected tol = (\<bar>v - expected\<bar> \<le> tol)"
| "approx (Inl e) expected tol = False"

subsection \<open>Python's \<^verbatim>\<open>str.lower\<close> and \<^verbatim>\<open>in\<close> on ASCII strings\<close>

definition char_lower :: "char \<Rightarrow> char" where
  "char_lower c =
     (let n = (of_char c :: nat) in if 65 \<le> n \<and> n \<le> 90 then char_of (n + 32) else c)"

definition str_lower :: "string \<Rightarrow> string" where
  "str_lower s = map char_lower s"

fun startswith :: "string \<Rightarrow> string \<Rightarrow> bool" where
  "startswith s [] = True"
| "startswith [] (y # ys) = False"
| "startswith (x # xs) (y # ys) = (x = y \<and> startswith xs ys)"

text \<open>\<open>str_contains s sub\<close> is Python's \<^verbatim>\<open>sub in s\<close>.\<close>

fun str_contains :: "string \<Rightarrow> string \<Rightarrow> bool" where
  "str_contains [] sub = (sub = [])"
| "str_contains (x # xs) sub = (startswith (x # xs) sub \<or> str_contains xs sub)"

fun risk_level :: "(string \<times> string) result \<Rightarrow> string option" where
  "risk_level (Inr (level, recommendation)) = Some level"
| "risk_level (Inl e) = None"

fun recommendation_mentions :: "(string \<times> string) result \<Rightarrow> string \<Rightarrow> bool" where
  "recommendation_mentions (Inr (level, recommendation)) phrase =
     str_contains (str_lower recommendation) phrase"
| "recommendation_mentions (Inl e) phrase = False"

section \<open>Binary64 arithmetic\<close>

text \<open>
  A finite double is a rational number \<open>k * 2 ^ q\<close> with \<open>\<bar>k\<bar> < 2 ^ 53\<close> and
  \<open>- 1074 \<le> q\<close>. The result of an operation is the exact result rounded to the nearest
  such number, ties to the even \<open>k\<close>: the exact result \<open>x\<close> with
  \<open>2 ^ e \<le> \<bar>x\<bar> < 2 ^ (e + 1)\<close> is rounded to a multiple of \<open>2 ^ (e - 52)\<close>, or of
  \<open>2 ^ (- 1074)\<close> in the subnormal range.
\<close>

text \<open>\<open>expo x\<close> is the binary exponent \<open>e\<close> of \<open>x \<noteq> 0\<close>: \<open>2 ^ e \<le> \<bar>x\<bar> < 2 ^ (e + 1)\<close>.\<close>

definition expo :: "real \<Rightarrow> int" where
  "expo x =
     (if 1 \<le> \<bar>x\<bar> then bitlen \<lfloor>\<bar>x\<bar>\<rfloor> - 1 else - bitlen (\<lceil>1 / \<bar>x\<bar>\<rceil> - 1))"

definition round_even :: "real \<Rightarrow> int" where
  "round_even y =
     (let f = \<lfloor>y\<rfloor>; r = y - of_int f
      in if r < 1 / 2 then f else if 1 / 2 < r then f + 1 else if even f then f else f + 1)"

definition quantum :: "real \<Rightarrow> real" where
  "quantum x = 2 powi (max (expo x - 52) (- 1074))"

text \<open>Rounding to nearest, ties to even, with the exponent unbounded above.\<close>

definition rnd :: "real \<Rightarrow> real" where
  "rnd x = quantum x * of_int (round_even (x / quantum x))"

text \<open>
  The values of a \<^verbatim>\<open>float\<close>. The two zeros are one value: the functions modelled here
  never observe the sign of a zero, since comparisons treat both alike and a division
  by either raises.
\<close>

datatype double = Fin real | PInf | NInf | NaN

text \<open>The largest finite double, \<open>(2 ^ 53 - 1) * 2 ^ 971\<close>.\<close>

definition max_double :: real where
  "max_double = (2 ^ 53 - 1) * 2 ^ 971"

text \<open>
  \<open>fl x\<close> is the double an operation with exact result \<open>x\<close> returns: the rounded value,
  or an infinity when the rounded value exceeds the largest finite double. It is also
  the value of a decimal literal \<open>x\<close> of the source.
\<close>

definition fl :: "real \<Rightarrow> double" where
  "fl x = (let r = rnd x in
            if max_double < r then PInf else if r < - max_double then NInf else Fin r)"

fun fadd :: "double \<Rightarrow> double \<Rightarrow> double" where
  "fadd (Fin x) (Fin y) = fl (x + y)"
| "fadd NaN b = NaN"
| "fadd a NaN = NaN"
| "fadd PInf NInf = NaN"
| "fadd NInf PInf = NaN"
| "fadd PInf b = PInf"
| "fadd a PInf = PInf"
| "fadd NInf b = NInf"
| "fadd a NInf = NInf"

fun fsub :: "double \<Rightarrow> double \<Rightarrow> double" where
  "fsub (Fin x) (Fin y) = fl (x - y)"
| "fsub NaN b = NaN"
| "fsub a NaN = NaN"
| "fsub PInf PInf = NaN"
| "fsub NInf NInf = NaN"
| "fsub PInf b = PInf"
| "fsub a PInf = NInf"
| "fsub NInf b = NInf"
| "fsub a NInf = PInf"

fun sign_inf :: "bool \<Rightarrow> double" where
  "sign_inf True = PInf"
| "sign_inf False = NInf"

fun fmul :: "double \<Rightarrow> double \<Rightarrow> double" where
  "fmul (Fin x) (Fin y) = fl (x * y)"
| "fmul NaN b = NaN"
| "fmul a NaN = NaN"
| "fmul PInf (Fin y) = (if y = 0 then NaN else sign_inf (0 < y))"
| "fmul NInf (Fin y) = (if y = 0 then NaN else sign_inf (y < 0))"
| "fmul (Fin x) PInf = (if x = 0 then NaN else sign_inf (0 < x))"
| "fmul (Fin x) NInf = (if x = 0 then NaN else sign_inf (x < 0))"
| "fmul PInf PInf = PInf"
| "fmul NInf NInf = PInf"
| "fmul PInf NInf = NInf"
| "fmul NInf PInf = NInf"

text \<open>
  The quotient by a divisor that is not zero. (Python raises before dividing by zero,
  see \<open>py_truediv_f64\<close>; the value given here to a zero divisor is never used.)
\<close>

fun fdiv :: "double \<Rightarrow> double \<Rightarrow> double" where
  "fdiv (Fin x) (Fin y) = fl (x / y)"
| "fdiv NaN b = NaN"
| "fdiv a NaN = NaN"
| "fdiv (Fin x) PInf = Fin 0"
| "fdiv (Fin x) NInf = Fin 0"
| "fdiv PInf (Fin y) = sign_inf (0 < y)"
| "fdiv NInf (Fin y) = sign_inf (y < 0)"
| "fdiv PInf b = NaN"
| "fdiv NInf b = NaN"

text \<open>\<^verbatim>\<open>a / b\<close> on floats: a zero divisor raises, whatever the dividend.\<close>

definition py_truediv_f64 :: "double \<Rightarrow> double \<Rightarrow> double result" where
  "py_truediv_f64 a b = (if b = Fin 0 then Inl ZeroDivisionError else Inr (fdiv a b))"

text \<open>\<^verbatim>\<open>a <= b\<close> on floats: false as soon as one side is NaN.\<close>

fun dle :: "double \<Rightarrow> double \<Rightarrow> bool" where
  "dle (Fin x) (Fin y) = (x \<le> y)"
| "dle NaN b = False"
| "dle a NaN = False"
| "dle NInf b = True"
| "dle a PInf = True"
| "dle PInf b = False"
| "dle a NInf = False"

text \<open>
  \<^verbatim>\<open>x ** 2\<close> on a float: CPython calls the C library's \<^verbatim>\<open>pow(x, 2.0)\<close> and raises
  \<^verbatim>\<open>OverflowError\<close> when a finite \<open>x\<close> gives an infinite result; an underflow to zero
  is returned as zero. The square is taken as correctly rounded; the properties below
  use only that the square of zero is zero and that the rounded square lies between the
  same powers of two as the exact one.
\<close>

fun py_pow2 :: "double \<Rightarrow> double result" where
  "py_pow2 (Fin x) =
     (case fl (x * x) of
        Fin r \<Rightarrow> Inr (Fin r)
      | PInf \<Rightarrow> Inl OverflowError
      | NInf \<Rightarrow> Inl OverflowError
      | NaN \<Rightarrow> Inr NaN)"
| "py_pow2 PInf = Inr PInf"
| "py_pow2 NInf = Inr PInf"
| "py_pow2 NaN = Inr NaN"

text \<open>\<^verbatim>\<open>a + b\<close> of the results of two calls: the first exception wins.\<close>

fun py_add :: "double result \<Rightarrow> double result \<Rightarrow> double result" where
  "py_add (Inl e) b = Inl e"
| "py_add (Inr a) (Inl e) = Inl e"
| "py_add (Inr a) (Inr b) = Inr (fadd a b)"

subsection \<open>\<^verbatim>\<open>src/core/preload.py\<close> on doubles\<close>

text \<open>
  \<^verbatim>\<open>calculate_preload\<close> and \<^verbatim>\<open>calculate_final_torque\<close> once more, operation by
  operation as the source writes them (\<^verbatim>\<open>a * b / c\<close> is \<^verbatim>\<open>(a * b) / c\<close>), now
  on doubles.
\<close>

definition calculate_preload_f64 :: "double \<Rightarrow> double \<Rightarrow> double \<Rightarrow> double result" where
  "calculate_preload_f64 tightening_torque removal_torque thread_pitch =
     (if dle thread_pitch (Fin 0)
      then Inl (ValueError ''Thread pitch must be greater than zero'')
      else py_truediv_f64 (fmul (fsub tightening_torque removal_torque) (Fin math_pi))
             thread_pitch)"

definition calculate_final_torque_f64 ::
  "double \<Rightarrow> double \<Rightarrow> double \<Rightarrow> double \<Rightarrow> double \<Rightarrow> bool \<Rightarrow> double result" where
  "calculate_final_torque_f64 initial_torque removal_torque initial_preload desired_preload
       thread_pitch use_ratio_method =
     (if dle thread_pitch (Fin 0)
      then Inl (ValueError ''Thread pitch must be greater than zero'')
      else if dle initial_torque removal_torque
      then Inl (ValueError ''Initial torque must be greater than removal torque'')
      else
        (case py_truediv_f64 desired_preload initial_preload of
           Inl e \<Rightarrow> Inl e
         | Inr q \<Rightarrow>
             (let ratio_method = fmul initial_torque q in
               (case py_truediv_f64 (fmul (fmul thread_pitch initial_torque) desired_preload)
                       (fmul (Fin math_pi) (fsub initial_torque removal_torque)) of
                  Inl e \<Rightarrow> Inl e
                | Inr exact_method \<Rightarrow>
                    Inr (if use_ratio_method then ratio_method else exact_method)))))"

text \<open>
  \<^verbatim>\<open>
  def calculate_self_loosening(tightening_torque, removal_torque):
      return (tightening_torque - removal_torque) / 2

  def calculate_primary_locking(tightening_torque, removal_torque):
      return (tightening_torque + removal_torque) / 2
  \<close>
\<close>

definition calculate_self_loosening :: "double \<Rightarrow> double \<Rightarrow> double result" where
  "calculate_self_loosening tightening_torque removal_torque =
     py_truediv_f64 (fsub tightening_torque removal_torque) (Fin 2)"

definition calculate_primary_locking :: "double \<Rightarrow> double \<Rightarrow> double result" where
  "calculate_primary_locking tightening_torque removal_torque =
     py_truediv_f64 (fadd tightening_torque removal_torque) (Fin 2)"

subsection \<open>\<^verbatim>\<open>src/core/torque.py\<close> on doubles\<close>

text \<open>
  \<^verbatim>\<open>
  def estimate_preload_from_torque(torque, screw_diameter, k_factor=0.2):
      if screw_diameter <= 0:
          raise ValueError("Screw diameter must be positive")
      if k_factor <= 0:
          raise ValueError("k_factor must be positive")
      return torque / (k_factor * screw_diameter)
  \<close>
\<close>

definition estimate_preload_from_torque :: "double \<Rightarrow> double \<Rightarrow> double \<Rightarrow> double result" where
  "estimate_preload_from_torque torque screw_diameter k_factor =
     (if dle screw_diameter (Fin 0) then Inl (ValueError ''Screw diameter must be positive'')
      else if dle k_factor (Fin 0) then Inl (ValueError ''k_factor must be positive'')
      else py_truediv_f64 torque (fmul k_factor screw_diameter))"

text \<open>
  \<^verbatim>\<open>
  def calculate_stress_from_preload(preload, tensile_area):
      if tensile_area <= 0:
          raise ValueError("Tensile area must be positive")
      return preload / tensile_area
  \<close>
\<close>

definition calculate_stress_from_preload :: "double \<Rightarrow> double \<Rightarrow> double result" where
  "calculate_stress_from_preload preload tensile_area =
     (if dle tensile_area (Fin 0) then Inl (ValueError ''Tensile area must be positive'')
      else py_truediv_f64 preload tensile_area)"

text \<open>
  \<^verbatim>\<open>
  def calculate_safety_factor(stress, yield_strength):
      if stress <= 0:
          raise ValueError("Stress must be positive")
      if yield_strength <= 0:
          raise ValueError("Yield strength must be positive")
      return yield_strength / stress
  \<close>
\<close>

definition calculate_safety_factor :: "double \<Rightarrow> double \<Rightarrow> double result" where
  "calculate_safety_factor stress yield_strength =
     (if dle stress (Fin 0) then Inl (ValueError ''Stress must be positive'')
      else if dle yield_strength (Fin 0)
      then Inl (ValueError ''Yield strength must be positive'')
      else py_truediv_f64 yield_strength stress)"

text \<open>
  \<^verbatim>\<open>
  def calculate_tensile_area(nominal_diameter, thread_pitch):
      if nominal_diameter <= 0:
          raise ValueError("Nominal diameter must be positive")
      if thread_pitch <= 0:
          raise ValueError("Thread pitch must be positive")
      effective_diameter = nominal_diameter - 0.9382 * thread_pitch
      return (math.pi / 4) * (effective_diameter ** 2)
  \<close>
  The literal \<^verbatim>\<open>0.9382\<close> is the double nearest to \<open>9382 / 10000\<close>. The local variable
  \<^verbatim>\<open>effective_diameter\<close> is a function of its own here, so that properties can name it.
\<close>

definition effective_diameter :: "double \<Rightarrow> double \<Rightarrow> double" where
  "effective_diameter nominal_diameter thread_pitch =
     fsub nominal_diameter (fmul (fl (9382 / 10000)) thread_pitch)"

definition calculate_tensile_area :: "double \<Rightarrow> double \<Rightarrow> double result" where
  "calculate_tensile_area nominal_diameter thread_pitch =
     (if dle nominal_diameter (Fin 0)
      then Inl (ValueError ''Nominal diameter must be positive'')
      else if dle thread_pitch (Fin 0) then Inl (ValueError ''Thread pitch must be positive'')
      else
        (case py_truediv_f64 (Fin math_pi) (Fin 4) of
           Inl e \<Rightarrow> Inl e
         | Inr quarter_pi \<Rightarrow>
             (case py_pow2 (effective_diameter nominal_diameter thread_pitch) of
                Inl e \<Rightarrow> Inl e
              | Inr squared \<Rightarrow> Inr (fmul quarter_pi squared))))"

subsection \<open>The torque-to-safety-factor composition\<close>

text \<open>
  The core has no function of its own for the chain from torque to safety factor; its
  callers write it out, call after call, as \<^verbatim>\<open>tests/test_implant_systems.py\<close> does in
  \<^verbatim>\<open>test_stress_calculation\<close>:
  \<^verbatim>\<open>
  tensile_area = calculate_tensile_area(diameter, thread_pitch)
  preload = estimate_preload_from_torque(torque, diameter/10, k_factor)
  stress = calculate_stress_from_preload(preload, tensile_area)
  safety_factor = calculate_safety_factor(stress, yield_strength)
  \<close>
  The first exception ends the chain. The diameter given to
  \<^verbatim>\<open>estimate_preload_from_torque\<close> is a parameter of its own here, since the callers
  differ in the unit they pass (the test above divides by 10).
\<close>

definition torque_to_safety_factor ::
  "double \<Rightarrow> double \<Rightarrow> double \<Rightarrow> double \<Rightarrow> double \<Rightarrow> double \<Rightarrow> double result" where
  "torque_to_safety_factor torque screw_diameter k_factor nominal_diameter thread_pitch
       yield_strength =
     (case calculate_tensile_area nominal_diameter thread_pitch of
        Inl e \<Rightarrow> Inl e
      | Inr tensile_area \<Rightarrow>
          (case estimate_preload_from_torque torque screw_diameter k_factor of
             Inl e \<Rightarrow> Inl e
           | Inr preload \<Rightarrow>
               (case calculate_stress_from_preload preload tensile_area of
                  Inl e \<Rightarrow> Inl e
                | Inr stress \<Rightarrow> calculate_safety_factor stress yield_strength)))"

subsection \<open>Ranges and error measures\<close>

text \<open>
  A quantity is moderate when it lies between \<open>2 ^ (- 100)\<close> and \<open>2 ^ 100\<close>, far inside
  the range of the doubles, so that no product or quotient of a few of them overflows or
  underflows.
\<close>

definition moderate :: "real \<Rightarrow> bool" where
  "moderate x = (2 powi (- 100) \<le> x \<and> x \<le> 2 powi 100)"

text \<open>\<open>mag a b x\<close>: the magnitude of \<open>x\<close> lies between \<open>2 ^ a\<close> and \<open>2 ^ b\<close>.\<close>

definition mag :: "int \<Rightarrow> int \<Rightarrow> real \<Rightarrow> bool" where
  "mag a b x = (2 powi a \<le> \<bar>x\<bar> \<and> \<bar>x\<bar> \<le> 2 powi b)"

text \<open>Half the smallest subnormal number, the largest rounding error near zero.\<close>

definition eta :: real where
  "eta = 2 powi (- 1075)"

definition quarter_max :: real where
  "quarter_max = 2 ^ 1022"

text \<open>
  One rounding of a normal number changes it by a factor between \<open>1 - 2 ^ (- 53)\<close> and
  \<open>1 + 2 ^ (- 53)\<close>, both between \<open>1 / w\<close> and \<open>w\<close>. \<open>rel k v x\<close>: the computed \<open>v\<close> is
  the exact \<open>x\<close> up to \<open>k\<close> such factors.
\<close>

definition w :: real where
  "w = 1 / (1 - 1 / 2 ^ 53)"

definition rel :: "nat \<Rightarrow> real \<Rightarrow> real \<Rightarrow> bool" where
  "rel k v x = (x \<noteq> 0 \<and> 1 \<le> (v / x) * w ^ k \<and> v / x \<le> w ^ k)"

section \<open>Basic facts\<close>

lemma math_pi_pos: "0 < math_pi"
  by (simp add: math_pi_def)

lemma calculate_preload_value:
  "0 < p \<Longrightarrow> calculate_preload Tt Tr p = Inr ((Tt - Tr) * math_pi / p)"
  by (simp add: calculate_preload_def py_truediv_def)

lemma calculate_preload_error:
  "p \<le> 0 \<Longrightarrow>
   calculate_preload Tt Tr p = Inl (ValueError ''Thread pitch must be greater than zero'')"
  by (simp add: calculate_preload_def)

lemma high_recommendation_lower:
  "str_contains
     (str_lower ''Not recommended, consider alternative implant system or reduced loading'')
     ''not recommended''"
  by code_simp

section \<open>Facts about rounding\<close>

subsection \<open>The exponent and the rounded value\<close>

lemma expo_bounds:
  assumes "x \<noteq> 0"
  shows "2 powi (expo x) \<le> \<bar>x\<bar>" and "\<bar>x\<bar> < 2 powi (expo x + 1)"
proof -
  have "2 powi (expo x) \<le> \<bar>x\<bar> \<and> \<bar>x\<bar> < 2 powi (expo x + 1)"
  proof (cases "1 \<le> \<bar>x\<bar>")
    case True
    define n where "n = \<lfloor>\<bar>x\<bar>\<rfloor>"
    have n: "0 < n" using True by (simp add: n_def)
    have e: "expo x = bitlen n - 1" using True by (simp add: expo_def n_def)
    have bl: "1 \<le> bitlen n" using n by (simp add: bitlen_alt_def)
    from bitlen_bounds[OF n] have b1: "2 ^ nat (bitlen n - 1) \<le> n" and b2: "n < 2 ^ nat (bitlen n)"
      by auto
    have "(2::real) powi (bitlen n - 1) = 2 ^ nat (bitlen n - 1)"
      using bl by (simp add: power_int_nonneg_exp)
    also have "\<dots> \<le> of_int n" using b1 by simp
    also have "\<dots> \<le> \<bar>x\<bar>" by (simp add: n_def)
    finally have lo: "2 powi (expo x) \<le> \<bar>x\<bar>" by (simp add: e)
    have "n + 1 \<le> 2 ^ nat (bitlen n)" using b2 by simp
    then have "(of_int (n + 1) :: real) \<le> 2 ^ nat (bitlen n)"
      by (simp only: of_int_le_numeral_power_cancel_iff)
    moreover have "\<bar>x\<bar> < of_int (n + 1)" unfolding n_def by linarith
    ultimately have "\<bar>x\<bar> < 2 ^ nat (bitlen n)" by linarith
    also have "\<dots> = 2 powi (bitlen n)" using bl by (simp add: power_int_nonneg_exp)
    finally have "\<bar>x\<bar> < 2 powi (expo x + 1)" by (simp add: e)
    with lo show ?thesis by simp
  next
    case False
    define y where "y = 1 / \<bar>x\<bar>"
    define m where "m = \<lceil>y\<rceil>"
    define k where "k = bitlen (m - 1)"
    have xpos: "0 < \<bar>x\<bar>" using assms by simp
    have y1: "1 < y" using False xpos by (simp add: y_def)
    have m2: "0 < m - 1" unfolding m_def using y1 by linarith
    have e: "expo x = - k" using False by (simp add: expo_def k_def m_def y_def)
    have k1: "1 \<le> k" using m2 by (simp add: k_def bitlen_alt_def)
    from bitlen_bounds[OF m2] have b1: "2 ^ nat (k - 1) \<le> m - 1" and b2: "m - 1 < 2 ^ nat k"
      by (auto simp: k_def)
    have "m \<le> 2 ^ nat k" using b2 by simp
    then have "(of_int m :: real) \<le> 2 ^ nat k" by simp
    moreover have "y \<le> of_int m" by (simp add: m_def)
    ultimately have "y \<le> 2 ^ nat k" by linarith
    then have "y \<le> 2 powi k" using k1 by (simp add: power_int_nonneg_exp)
    then have "1 / \<bar>x\<bar> \<le> 2 powi k" by (simp add: y_def)
    then have "1 \<le> 2 powi k * \<bar>x\<bar>" using xpos by (simp add: field_simps)
    then have "1 / 2 powi k \<le> \<bar>x\<bar>" by (simp add: field_simps)
    then have lo: "2 powi (expo x) \<le> \<bar>x\<bar>" by (simp add: e power_int_minus_divide)
    have "(2 ^ nat (k - 1) :: real) \<le> of_int (m - 1)" using b1
      by (simp only: numeral_power_le_of_int_cancel_iff)
    moreover have "of_int (m - 1) < y" unfolding m_def by linarith
    ultimately have "2 ^ nat (k - 1) < y" by linarith
    then have "2 powi (k - 1) < y" using k1 by (simp add: power_int_nonneg_exp)
    then have "2 powi (k - 1) < 1 / \<bar>x\<bar>" by (simp add: y_def)
    then have "2 powi (k - 1) * \<bar>x\<bar> < 1" using xpos by (simp add: field_simps)
    then have "\<bar>x\<bar> < 1 / 2 powi (k - 1)" by (simp add: field_simps)
    then have "\<bar>x\<bar> < 2 powi (- (k - 1))" by (simp only: power_int_minus_divide)
    then have "\<bar>x\<bar> < 2 powi (expo x + 1)" by (simp add: e)
    with lo show ?thesis by simp
  qed
  then show "2 powi (expo x) \<le> \<bar>x\<bar>" and "\<bar>x\<bar> < 2 powi (expo x + 1)" by simp_all
qed

lemma expo_eqI:
  assumes "2 powi e \<le> \<bar>x\<bar>" and "\<bar>x\<bar> < 2 powi (e + 1)"
  shows "expo x = e"
proof -
  have "0 < (2::real) powi e" by simp
  with assms(1) have "0 < \<bar>x\<bar>" by linarith
  then have nz: "x \<noteq> 0" by simp
  note b = expo_bounds[OF nz]
  have "\<not> expo x < e"
  proof
    assume "expo x < e"
    then have "expo x + 1 \<le> e" by simp
    then have "(2::real) powi (expo x + 1) \<le> 2 powi e" by (intro power_int_increasing) simp_all
    with b(2) assms(1) show False by linarith
  qed
  moreover have "\<not> e < expo x"
  proof
    assume "e < expo x"
    then have "e + 1 \<le> expo x" by simp
    then have "(2::real) powi (e + 1) \<le> 2 powi (expo x)" by (intro power_int_increasing) simp_all
    with b(1) assms(2) show False by linarith
  qed
  ultimately show ?thesis by simp
qed

lemma round_even_error: "\<bar>of_int (round_even y) - y\<bar> \<le> 1 / 2"
  unfolding round_even_def Let_def by (auto simp: abs_le_iff)

lemma round_even_of_int [simp]: "round_even (of_int k) = k"
  by (simp add: round_even_def)

lemma round_even_ge: "of_int k \<le> y \<Longrightarrow> k \<le> round_even y"
proof -
  assume "of_int k \<le> y"
  then have "k \<le> \<lfloor>y\<rfloor>" by (simp add: le_floor_iff)
  moreover have "\<lfloor>y\<rfloor> \<le> round_even y" unfolding round_even_def Let_def by auto
  ultimately show ?thesis by simp
qed

lemma round_even_le: "y \<le> of_int k \<Longrightarrow> round_even y \<le> k"
proof -
  assume a: "y \<le> of_int k"
  show ?thesis
  proof (cases "y = of_int k")
    case True then show ?thesis by simp
  next
    case False
    with a have "y < of_int k" by simp
    then have "\<lfloor>y\<rfloor> < k" by (simp add: floor_less_iff)
    then have "\<lfloor>y\<rfloor> + 1 \<le> k" by simp
    moreover have "round_even y \<le> \<lfloor>y\<rfloor> + 1" unfolding round_even_def Let_def by auto
    ultimately show ?thesis by simp
  qed
qed

lemma round_even_minus: "round_even (- y) = - round_even y"
proof (cases "y = of_int \<lfloor>y\<rfloor>")
  case True
  then obtain k where "y = of_int k" ..
  then show ?thesis by (simp flip: of_int_minus)
next
  case False
  then have c: "\<lceil>y\<rceil> = \<lfloor>y\<rfloor> + 1" by (simp add: ceiling_altdef)
  have f: "\<lfloor>- y\<rfloor> = - \<lfloor>y\<rfloor> - 1" using c by (simp add: floor_minus)
  show ?thesis unfolding round_even_def Let_def f using False
    by (auto simp: algebra_simps)
qed


lemma expo_minus [simp]: "expo (- x) = expo x"
  by (simp add: expo_def)

lemma quantum_minus [simp]: "quantum (- x) = quantum x"
  by (simp add: quantum_def)

lemma quantum_pos [simp]: "0 < quantum x"
  by (simp add: quantum_def)

lemma quantum_nonzero [simp]: "quantum x \<noteq> 0"
  using quantum_pos[of x] by linarith

lemma round_even_zero [simp]: "round_even 0 = 0"
  by (simp add: round_even_def)

lemma rnd_minus: "rnd (- x) = - rnd x"
  by (simp add: rnd_def round_even_minus)

lemma rnd_zero [simp]: "rnd 0 = 0"
  by (simp add: rnd_def)

lemma rnd_error_quantum: "\<bar>rnd x - x\<bar> \<le> quantum x / 2"
proof -
  define q where "q = quantum x"
  have q: "0 < q" by (simp add: q_def)
  have "rnd x - x = q * (of_int (round_even (x / q)) - x / q)"
    using q by (simp add: rnd_def q_def algebra_simps)
  then have "\<bar>rnd x - x\<bar> = q * \<bar>of_int (round_even (x / q)) - x / q\<bar>"
    using q by (simp add: abs_mult)
  also have "\<dots> \<le> q * (1 / 2)"
    using q round_even_error[of "x / q"] by (intro mult_left_mono) simp_all
  finally show ?thesis by (simp add: q_def)
qed

lemma expo_ge:
  assumes "2 powi a \<le> \<bar>x\<bar>"
  shows "a \<le> expo x"
proof (rule ccontr)
  assume "\<not> a \<le> expo x"
  then have "expo x + 1 \<le> a" by simp
  then have le: "(2::real) powi (expo x + 1) \<le> 2 powi a"
    by (intro power_int_increasing) simp_all
  have "0 < (2::real) powi a" by simp
  with assms have "0 < \<bar>x\<bar>" by linarith
  then have "x \<noteq> 0" by simp
  from expo_bounds(2)[OF this] le assms show False by linarith
qed

lemma expo_less:
  assumes "x \<noteq> 0" and "\<bar>x\<bar> < 2 powi b"
  shows "expo x < b"
proof (rule ccontr)
  assume "\<not> expo x < b"
  then have "(2::real) powi b \<le> 2 powi (expo x)"
    by (intro power_int_increasing) simp_all
  with expo_bounds(1)[OF assms(1)] assms(2) show False by linarith
qed

lemma quantum_normal:
  assumes "2 powi (- 1022) \<le> \<bar>x\<bar>"
  shows "quantum x = 2 powi (expo x - 52)" and "quantum x \<le> \<bar>x\<bar> / 2 ^ 52"
proof -
  have "0 < (2::real) powi (- 1022)" by (rule zero_less_power_int) simp
  with assms have "0 < \<bar>x\<bar>" by linarith
  then have nz: "x \<noteq> 0" by simp
  from expo_ge[OF assms] have "max (expo x - 52) (- 1074) = expo x - 52" by simp
  then show q: "quantum x = 2 powi (expo x - 52)" by (simp only: quantum_def)
  have "quantum x = 2 powi (expo x) / 2 ^ 52"
    unfolding q by (simp add: power_int_diff)
  also have "\<dots> \<le> \<bar>x\<bar> / 2 ^ 52"
    using expo_bounds(1)[OF nz] by (intro divide_right_mono) simp_all
  finally show "quantum x \<le> \<bar>x\<bar> / 2 ^ 52" .
qed

lemma quantum_subnormal:
  assumes "x \<noteq> 0" and "\<bar>x\<bar> < 2 powi (- 1022)"
  shows "quantum x = 2 powi (- 1074)"
proof -
  from expo_less[OF assms] have "max (expo x - 52) (- 1074) = - 1074" by simp
  then show ?thesis by (simp only: quantum_def)
qed

lemma eta_pos: "0 < eta"
  unfolding eta_def by (rule zero_less_power_int) simp

lemma rnd_error_normal:
  assumes "2 powi (- 1022) \<le> \<bar>x\<bar>"
  shows "\<bar>rnd x - x\<bar> \<le> \<bar>x\<bar> / 2 ^ 53"
proof -
  have "quantum x / 2 \<le> (\<bar>x\<bar> / 2 ^ 52) / 2"
    using quantum_normal(2)[OF assms] by (intro divide_right_mono) simp_all
  also have "\<dots> = \<bar>x\<bar> / 2 ^ 53" by simp
  finally show ?thesis using rnd_error_quantum[of x] by linarith
qed

lemma rnd_error: "\<bar>rnd x - x\<bar> \<le> \<bar>x\<bar> / 2 ^ 53 + eta"
proof (cases "2 powi (- 1022) \<le> \<bar>x\<bar>")
  case True
  from rnd_error_normal[OF True] eta_pos show ?thesis by linarith
next
  case False
  show ?thesis
  proof (cases "x = 0")
    case True
    then show ?thesis using eta_pos by simp
  next
    case nz: False
    from False have "\<bar>x\<bar> < 2 powi (- 1022)" by simp
    from quantum_subnormal[OF nz this] have "quantum x / 2 = 2 powi (- 1074) / 2" by simp
    also have "\<dots> = 2 powi (- 1074 - 1)" by (simp add: power_int_diff)
    also have "\<dots> = eta" by (simp add: eta_def)
    finally have "\<bar>rnd x - x\<bar> \<le> eta" using rnd_error_quantum[of x] by simp
    moreover have "0 \<le> \<bar>x\<bar> / 2 ^ 53" by simp
    ultimately show ?thesis by linarith
  qed
qed

lemma rnd_range_pos:
  assumes "- 1022 \<le> a" and "2 powi a \<le> x" and "x \<le> 2 powi b"
  shows "2 powi a \<le> rnd x" and "rnd x \<le> 2 powi b"
proof -
  have pa: "0 < (2::real) powi a" by simp
  with assms(2) have xpos: "0 < x" by linarith
  then have ax: "\<bar>x\<bar> = x" and nz: "x \<noteq> 0" by simp_all
  define e where "e = expo x"
  note eb = expo_bounds[OF nz, folded e_def, unfolded ax]
  have ea: "a \<le> e" unfolding e_def using assms(2) by (intro expo_ge) (simp add: ax)
  with assms(1) have "max (e - 52) (- 1074) = e - 52" by simp
  then have q: "quantum x = 2 powi (e - 52)" by (simp only: quantum_def e_def[symmetric])
  define q where "q = (2::real) powi (e - 52)"
  have qpos: "0 < q" by (simp add: q_def)
  have qe: "q * 2 ^ 52 = 2 powi e" by (simp add: q_def power_int_diff)
  have qe1: "q * 2 ^ 53 = 2 powi (e + 1)" by (simp add: q_def power_int_diff power_int_add)
  have r: "rnd x = q * of_int (round_even (x / q))" by (simp only: rnd_def q q_def)
  have "q * 2 ^ 52 \<le> x" using eb(1) qe by simp
  then have "2 ^ 52 \<le> x / q" using qpos by (simp add: pos_le_divide_eq mult.commute)
  then have "of_int (2 ^ 52) \<le> x / q" by simp
  then have "2 ^ 52 \<le> round_even (x / q)" by (rule round_even_ge)
  then have "(2 ^ 52 :: real) \<le> of_int (round_even (x / q))"
    by (simp only: numeral_power_le_of_int_cancel_iff)
  then have "q * 2 ^ 52 \<le> q * of_int (round_even (x / q))"
    using qpos by (intro mult_left_mono) simp_all
  then have lo: "2 powi e \<le> rnd x" by (simp only: qe r)
  moreover have "(2::real) powi a \<le> 2 powi e" using ea by (intro power_int_increasing) simp_all
  ultimately show "2 powi a \<le> rnd x" by linarith
  show "rnd x \<le> 2 powi b"
  proof (cases "e < b")
    case True
    have "x \<le> q * 2 ^ 53" using eb(2) qe1 by simp
    then have "x / q \<le> 2 ^ 53" using qpos by (simp add: pos_divide_le_eq mult.commute)
    then have "x / q \<le> of_int (2 ^ 53)" by simp
    then have "round_even (x / q) \<le> 2 ^ 53" by (rule round_even_le)
    then have "(of_int (round_even (x / q)) :: real) \<le> 2 ^ 53"
      by (simp only: of_int_le_numeral_power_cancel_iff)
    then have "q * of_int (round_even (x / q)) \<le> q * 2 ^ 53"
      using qpos by (intro mult_left_mono) simp_all
    then have "rnd x \<le> 2 powi (e + 1)" by (simp only: qe1 r)
    moreover have "(2::real) powi (e + 1) \<le> 2 powi b"
      using True by (intro power_int_increasing) simp_all
    ultimately show ?thesis by linarith
  next
    case False
    then have "(2::real) powi b \<le> 2 powi e" by (intro power_int_increasing) simp_all
    with eb(1) assms(3) have xe: "x = 2 powi e" and xb: "x = 2 powi b" by linarith+
    have "x = q * 2 ^ 52" using qe xe by simp
    then have "x / q = 2 ^ 52" using qpos by simp
    then have "x / q = of_int (2 ^ 52)" by simp
    then have "round_even (x / q) = 2 ^ 52" by (simp only: round_even_of_int)
    then have "rnd x = q * 2 ^ 52" by (simp add: r)
    then show ?thesis using qe xe xb by simp
  qed
qed

lemma rnd_range:
  assumes "- 1022 \<le> a" and "2 powi a \<le> \<bar>x\<bar>" and "\<bar>x\<bar> \<le> 2 powi b"
  shows "2 powi a \<le> \<bar>rnd x\<bar> \<and> \<bar>rnd x\<bar> \<le> 2 powi b"
proof (cases "0 \<le> x")
  case True
  then have ax: "\<bar>x\<bar> = x" by simp
  from rnd_range_pos[OF assms(1) assms(2)[unfolded ax] assms(3)[unfolded ax]]
  have r: "2 powi a \<le> rnd x" "rnd x \<le> 2 powi b" by simp_all
  have "0 < (2::real) powi a" by simp
  with r(1) have "0 < rnd x" by linarith
  with r show ?thesis by simp
next
  case False
  then have ax: "\<bar>x\<bar> = - x" by simp
  from rnd_range_pos[OF assms(1) assms(2)[unfolded ax] assms(3)[unfolded ax]]
  have r: "2 powi a \<le> - rnd x" "- rnd x \<le> 2 powi b" by (simp_all add: rnd_minus)
  have "0 < (2::real) powi a" by simp
  with r(1) have "rnd x < 0" by linarith
  with r show ?thesis by simp
qed


lemma rnd_at:
  assumes "2 powi e \<le> \<bar>x\<bar>" and "\<bar>x\<bar> < 2 powi (e + 1)"
  shows "rnd x = 2 powi (max (e - 52) (- 1074)) *
           of_int (round_even (x / 2 powi (max (e - 52) (- 1074))))"
proof -
  have e: "expo x = e" using assms(1,2) by (rule expo_eqI)
  show ?thesis by (simp only: rnd_def quantum_def e)
qed

subsection \<open>Finite results\<close>

lemma max_double_bound: "2 powi 1023 \<le> max_double"
  by (simp add: max_double_def)

lemma fl_finite:
  assumes "\<bar>rnd x\<bar> \<le> max_double"
  shows "fl x = Fin (rnd x)"
  using assms by (auto simp: fl_def Let_def)

lemma fl_eqI:
  assumes "2 powi e \<le> \<bar>x\<bar>" and "\<bar>x\<bar> < 2 powi (e + 1)"
    and "q = 2 powi (max (e - 52) (- 1074))"
    and "round_even (x / q) = k"
    and "\<bar>q * of_int k\<bar> \<le> max_double"
  shows "fl x = Fin (q * of_int k)"
proof -
  have "rnd x = q * of_int k"
    using rnd_at[OF assms(1,2)] by (simp only: assms(3)[symmetric] assms(4))
  with assms(5) show ?thesis by (simp add: fl_finite)
qed

lemma fl_zero [simp]: "fl 0 = Fin 0"
  by (simp add: fl_def max_double_def)

lemma fl_infI:
  assumes "2 powi e \<le> \<bar>x\<bar>" and "\<bar>x\<bar> < 2 powi (e + 1)"
    and "q = 2 powi (max (e - 52) (- 1074))"
    and "round_even (x / q) = k"
    and "max_double < q * of_int k"
  shows "fl x = PInf"
proof -
  have "rnd x = q * of_int k"
    using rnd_at[OF assms(1,2)] by (simp only: assms(3)[symmetric] assms(4))
  with assms(5) show ?thesis by (simp add: fl_def)
qed

lemma max_double_quarter_max: "max_double = 4 * quarter_max - quarter_max / 2 ^ 51"
  by (simp add: max_double_def quarter_max_def)

lemma eta_quarter_max: "eta \<le> quarter_max / 2 ^ 60"
  by (simp add: eta_def quarter_max_def power_int_minus_divide)

lemma quarter_max_pos: "0 < quarter_max"
  by (simp add: quarter_max_def)

lemma abs_diff_plus_sum: "\<bar>x - y\<bar> + \<bar>x + y\<bar> = 2 * max \<bar>x\<bar> \<bar>y\<bar>" for x y :: real
  by linarith

subsection \<open>Magnitudes\<close>

lemma mag_nonzero: "mag a b x \<Longrightarrow> x \<noteq> 0"
proof
  assume m: "mag a b x" and "x = 0"
  have "0 < (2::real) powi a" by simp
  with m \<open>x = 0\<close> show False by (simp add: mag_def)
qed

lemma mag_mult:
  assumes "mag a b x" and "mag c d y"
  shows "mag (a + c) (b + d) (x * y)"
proof -
  have "2 powi a * 2 powi c \<le> \<bar>x\<bar> * \<bar>y\<bar>"
    using assms by (intro mult_mono) (simp_all add: mag_def)
  moreover have "\<bar>x\<bar> * \<bar>y\<bar> \<le> 2 powi b * 2 powi d"
    using assms by (intro mult_mono) (simp_all add: mag_def)
  ultimately show ?thesis by (simp add: mag_def abs_mult power_int_add)
qed

lemma mag_inverse:
  assumes "mag c d y"
  shows "mag (- d) (- c) (1 / y)"
proof -
  have pos: "0 < \<bar>y\<bar>" using mag_nonzero[OF assms] by simp
  have c: "0 < (2::real) powi c" and d: "0 < (2::real) powi d" by simp_all
  have "1 / 2 powi d \<le> 1 / \<bar>y\<bar>"
    using assms pos by (intro divide_left_mono) (simp_all add: mag_def)
  moreover have "1 / \<bar>y\<bar> \<le> 1 / 2 powi c"
    using assms pos c by (intro divide_left_mono) (simp_all add: mag_def)
  ultimately show ?thesis by (simp add: mag_def power_int_minus_divide)
qed

lemma mag_div:
  assumes "mag a b x" and "mag c d y"
  shows "mag (a - d) (b - c) (x / y)"
  using mag_mult[OF assms(1) mag_inverse[OF assms(2)]] by simp

lemma mag_rnd:
  assumes "- 1022 \<le> a" and "mag a b x"
  shows "mag a b (rnd x)"
  using rnd_range[OF assms(1), of x b] assms(2) by (simp add: mag_def)

lemma mag_finite:
  assumes "mag a b x" and "b \<le> 1023"
  shows "\<bar>x\<bar> \<le> max_double"
proof -
  have "(2::real) powi b \<le> 2 powi 1023" using assms(2) by (intro power_int_increasing) simp_all
  with assms(1) max_double_bound show ?thesis by (simp add: mag_def)
qed

lemma fl_mag:
  assumes "mag a b x" and "- 1022 \<le> a" and "b \<le> 1023"
  shows "fl x = Fin (rnd x)" and "mag a b (rnd x)"
proof -
  show m: "mag a b (rnd x)" using assms(2,1) by (rule mag_rnd)
  from mag_finite[OF m assms(3)] show "fl x = Fin (rnd x)" by (rule fl_finite)
qed

lemma mag_normal:
  assumes "mag a b x" and "- 1022 \<le> a"
  shows "2 powi (- 1022) \<le> \<bar>x\<bar>"
proof -
  have "(2::real) powi (- 1022) \<le> 2 powi a" using assms(2) by (intro power_int_increasing) simp_all
  with assms(1) show ?thesis by (simp add: mag_def)
qed

lemma moderate_mag: "moderate x \<Longrightarrow> mag (- 100) 100 x"
proof -
  assume m: "moderate x"
  have "0 < (2::real) powi (- 100)" by (rule zero_less_power_int) simp
  with m have "0 < x" unfolding moderate_def by linarith
  with m show ?thesis by (simp add: moderate_def mag_def)
qed

lemma moderate_pos: "moderate x \<Longrightarrow> 0 < x"
proof -
  assume m: "moderate x"
  have "0 < (2::real) powi (- 100)" by (rule zero_less_power_int) simp
  with m show "0 < x" unfolding moderate_def by linarith
qed

lemma rnd_pos:
  assumes "mag a b x" and "- 1022 \<le> a" and "0 < x"
  shows "0 < rnd x"
proof -
  have x: "\<bar>x\<bar> = x" using assms(3) by simp
  from assms(1) have "2 powi a \<le> x" "x \<le> 2 powi b" by (simp_all add: mag_def x)
  from rnd_range_pos(1)[OF assms(2) this] have "2 powi a \<le> rnd x" .
  moreover have "0 < (2::real) powi a" by simp
  ultimately show ?thesis by linarith
qed

lemma math_pi_mag: "mag 1 2 math_pi"
  by (simp add: mag_def math_pi_def)

lemma quarter_pi_mag: "mag (- 1) 0 (math_pi / 4)"
  by (simp add: mag_def math_pi_def)

lemma literal_9382_mag: "mag (- 1) 0 (9382 / 10000)"
  by (simp add: mag_def)

subsection \<open>Accumulated relative error\<close>

lemma w_gt_one: "1 < w"
  by (simp add: w_def)

lemma w_pos: "0 < w"
  using w_gt_one by linarith

lemma w_power_pos [simp]: "0 < w ^ k"
  using w_pos by simp

lemma rel_ratio_pos:
  assumes "rel k v x"
  shows "0 < v / x"
proof (rule ccontr)
  assume "\<not> 0 < v / x"
  then have "v / x \<le> 0" by simp
  moreover have "0 \<le> w ^ k" using w_power_pos[of k] by linarith
  ultimately have "(v / x) * w ^ k \<le> 0" by (rule mult_nonpos_nonneg)
  with assms show False by (simp add: rel_def)
qed

lemma rel_nonzero:
  assumes "rel k v x"
  shows "v \<noteq> 0" and "x \<noteq> 0"
  using rel_ratio_pos[OF assms] assms by (auto simp: rel_def)

lemma rel_refl: "x \<noteq> 0 \<Longrightarrow> rel 0 x x"
  by (simp add: rel_def)

lemma rel_rnd:
  assumes "2 powi (- 1022) \<le> \<bar>x\<bar>"
  shows "rel 1 (rnd x) x"
proof -
  have "0 < (2::real) powi (- 1022)" by (rule zero_less_power_int) simp
  with assms have ax: "0 < \<bar>x\<bar>" by linarith
  then have nz: "x \<noteq> 0" by simp
  have "\<bar>rnd x - x\<bar> \<le> \<bar>x\<bar> / 2 ^ 53" using assms by (rule rnd_error_normal)
  then have "\<bar>rnd x - x\<bar> / \<bar>x\<bar> \<le> (\<bar>x\<bar> / 2 ^ 53) / \<bar>x\<bar>"
    using ax by (intro divide_right_mono) simp_all
  then have "\<bar>(rnd x - x) / x\<bar> \<le> 1 / 2 ^ 53" using ax by simp
  moreover have "(rnd x - x) / x = rnd x / x - 1" using nz by (simp add: field_simps)
  ultimately have b: "\<bar>rnd x / x - 1\<bar> \<le> 1 / 2 ^ 53" by simp
  define r where "r = rnd x / x"
  from b have lo: "1 - 1 / 2 ^ 53 \<le> r" and hi: "r \<le> 1 + 1 / 2 ^ 53"
    unfolding r_def by linarith+
  have "1 \<le> r * w" using lo by (simp add: w_def field_simps)
  moreover have "(1 + 1 / 2 ^ 53 :: real) \<le> w" by (simp add: w_def)
  with hi have "r \<le> w" by linarith
  ultimately show ?thesis using nz by (simp add: rel_def r_def)
qed

lemma rel_mult:
  assumes "rel j a x" and "rel k b y"
  shows "rel (j + k) (a * b) (x * y)"
proof -
  define r where "r = a / x"
  define s where "s = b / y"
  have r: "0 < r" "1 \<le> r * w ^ j" "r \<le> w ^ j"
    using assms(1) rel_ratio_pos[OF assms(1)] by (simp_all add: rel_def r_def)
  have s: "0 < s" "1 \<le> s * w ^ k" "s \<le> w ^ k"
    using assms(2) rel_ratio_pos[OF assms(2)] by (simp_all add: rel_def s_def)
  have "1 * 1 \<le> (r * w ^ j) * (s * w ^ k)" using r s by (intro mult_mono) simp_all
  then have lo: "1 \<le> (r * s) * w ^ (j + k)" by (simp add: power_add mult_ac)
  have "r * s \<le> w ^ j * w ^ k" using r s by (intro mult_mono) simp_all
  then have hi: "r * s \<le> w ^ (j + k)" by (simp add: power_add)
  have "(a * b) / (x * y) = r * s" by (simp add: r_def s_def)
  with lo hi rel_nonzero(2)[OF assms(1)] rel_nonzero(2)[OF assms(2)] show ?thesis
    by (simp add: rel_def)
qed

lemma rel_sym:
  assumes "rel k a b"
  shows "rel k b a"
proof -
  define r where "r = a / b"
  have r: "0 < r" "1 \<le> r * w ^ k" "r \<le> w ^ k"
    using assms rel_ratio_pos[OF assms] by (simp_all add: rel_def r_def)
  have ba: "b / a = 1 / r" by (simp add: r_def)
  have "1 / r \<le> w ^ k" using r by (simp add: field_simps)
  moreover have "1 \<le> (1 / r) * w ^ k" using r by (simp add: field_simps)
  ultimately show ?thesis using rel_nonzero(1)[OF assms] by (simp add: rel_def ba)
qed

lemma rel_trans:
  assumes "rel j a b" and "rel k b c"
  shows "rel (j + k) a c"
proof -
  have b: "b \<noteq> 0" using assms(1) by (simp add: rel_def)
  have "rel (j + k) (a * b) (b * c)" using rel_mult[OF assms] .
  moreover have "(a * b) / (b * c) = a / c" using b by simp
  ultimately show ?thesis using rel_nonzero(2)[OF assms(2)] by (simp add: rel_def)
qed

lemma rel_div:
  assumes "rel j a x" and "rel k b y"
  shows "rel (j + k) (a / b) (x / y)"
proof -
  have nz: "b \<noteq> 0" "y \<noteq> 0" using rel_nonzero[OF assms(2)] by simp_all
  have "rel k (1 / b) (1 / y)"
    using rel_sym[OF assms(2)] nz by (simp add: rel_def)
  from rel_mult[OF assms(1) this] show ?thesis by simp
qed

lemma w_power_ten: "w ^ 10 \<le> 1 + 1 / 2 ^ 49"
  by (simp add: w_def power_divide)

lemma rel_ten_bound:
  assumes "rel 10 a b"
  shows "\<bar>a - b\<bar> \<le> \<bar>b\<bar> / 2 ^ 49"
proof -
  define r where "r = a / b"
  have b: "b \<noteq> 0" using assms by (simp add: rel_def)
  have r: "0 < r" "1 \<le> r * w ^ 10" "r \<le> w ^ 10"
    using assms rel_ratio_pos[OF assms] by (simp_all add: rel_def r_def)
  have hi: "r \<le> 1 + 1 / 2 ^ 49" using r(3) w_power_ten by linarith
  have "1 \<le> r * (1 + 1 / 2 ^ 49)"
  proof -
    have "r * w ^ 10 \<le> r * (1 + 1 / 2 ^ 49)" using r(1) w_power_ten by (intro mult_left_mono) simp_all
    with r(2) show ?thesis by linarith
  qed
  then have lo: "1 - 1 / 2 ^ 49 \<le> r" by (simp add: field_simps)
  have "\<bar>r - 1\<bar> \<le> 1 / 2 ^ 49" using lo hi by linarith
  then have "\<bar>b\<bar> * \<bar>r - 1\<bar> \<le> \<bar>b\<bar> * (1 / 2 ^ 49)" by (intro mult_left_mono) simp_all
  moreover have "a - b = b * (r - 1)" using b by (simp add: r_def field_simps)
  ultimately show ?thesis by (simp add: abs_mult)
qed

lemma rel_rnd_mag:
  assumes "mag a b x" and "- 1022 \<le> a" and "rel k x y"
  shows "rel (Suc k) (rnd x) y"
  using rel_trans[OF rel_rnd[OF mag_normal[OF assms(1,2)]] assms(3)] by simp

section \<open>Properties of the preload model\<close>



text \<open>
  C3, as stated, fails in its first half: \<open>calculate_preload(35, 21.4, 0.04)\<close> is
  \<open>340 * math.pi\<close>, about 1068.1 N, which is not within 0.1 of 282.7 N.
\<close>

theorem preload_example_35_counterexample:
  "calculate_preload 35 (214 / 10) (4 / 100) = Inr (340 * math_pi)
   \<and> approx (calculate_preload 35 (214 / 10) (4 / 100)) (10681 / 10) (1 / 10)
   \<and> \<not> approx (calculate_preload 35 (214 / 10) (4 / 100)) (2827 / 10) (1 / 10)"
  by (simp add: calculate_preload_def py_truediv_def math_pi_def)

text \<open>
  C3, amended. The preload of about 282.7 N belongs to the tightening torque 25 of the
  worked example: \<open>calculate_preload(25, 21.4, 0.04)\<close> is within 0.1 of 282.7 N, and
  \<open>calculate_final_torque(25, 21.4, 282.7, 400, 0.04)\<close> is within 0.1 of 35.4 N cm.
\<close>

theorem literature_example_values:
  "approx (calculate_preload 25 (214 / 10) (4 / 100)) (2827 / 10) (1 / 10)
   \<and> approx (calculate_final_torque 25 (214 / 10) (2827 / 10) 400 (4 / 100) False)
        (354 / 10) (1 / 10)"
  by (simp add: calculate_preload_def calculate_final_torque_def py_truediv_def math_pi_def)

text \<open>
  C6. \<open>calculate_preload\<close> raises, and raises the invalid-argument error, exactly when
  \<open>thread_pitch \<le> 0\<close>. For every positive pitch it returns
  \<open>(Tt - Tr) * math.pi / p\<close> whatever the order of the two torques, and for \<open>Tt < Tr\<close>
  that value is negative.
\<close>

theorem calculate_preload_errors_exactly:
  "(is_invalid_argument (calculate_preload Tt Tr p) \<longleftrightarrow> p \<le> 0)
   \<and> (raises (calculate_preload Tt Tr p) \<longleftrightarrow> p \<le> 0)
   \<and> (0 < p \<longrightarrow> calculate_preload Tt Tr p = Inr ((Tt - Tr) * math_pi / p))
   \<and> (Tt < Tr \<and> 0 < p \<longrightarrow> (Tt - Tr) * math_pi / p < 0)"
proof (cases "p \<le> 0")
  case True
  then show ?thesis by (simp add: calculate_preload_error)
next
  case False
  then have pos: "0 < p" by simp
  have "Tt < Tr \<Longrightarrow> (Tt - Tr) * math_pi / p < 0"
    using pos math_pi_pos by (simp add: divide_neg_pos mult_neg_pos)
  then show ?thesis using pos by (auto simp add: calculate_preload_value)
qed

text \<open>
  C6 at the inverted torques 20 and 25 with pitch 0.04: the result is the negative
  preload \<open>-125 * math.pi\<close>, and the pitch 0 raises.
\<close>

theorem calculate_preload_errors_exactly_witness:
  "(20::real) < 25 \<and> (0::real) < 4 / 100
   \<and> calculate_preload 20 25 (4 / 100) = Inr ((20 - 25) * math_pi / (4 / 100))
   \<and> (20 - 25) * math_pi / (4 / 100) < 0
   \<and> is_invalid_argument (calculate_preload 20 25 0)"
  using calculate_preload_errors_exactly [of 20 25 "4 / 100"]
    calculate_preload_errors_exactly [of 20 25 0]
  by simp

text \<open>
  C7, as stated, fails in its second half: with a positive pitch,
  \<open>initial_torque > removal_torque\<close> and the ratio method selected, an
  \<open>initial_preload\<close> of 0 makes \<open>calculate_final_torque\<close> end in
  \<open>ZeroDivisionError\<close>, which is neither the invalid-argument error nor a result.
\<close>

theorem final_torque_zero_preload_counterexample:
  "(0::real) < 4 / 100 \<and> (214 / 10 :: real) < 25
   \<and> calculate_final_torque 25 (214 / 10) 0 400 (4 / 100) True = Inl ZeroDivisionError
   \<and> \<not> is_invalid_argument (calculate_final_torque 25 (214 / 10) 0 400 (4 / 100) True)
   \<and> raises (calculate_final_torque 25 (214 / 10) 0 400 (4 / 100) True)"
  by (simp add: calculate_final_torque_def py_truediv_def)

text \<open>
  C7, amended. \<open>calculate_final_torque\<close> raises the invalid-argument error exactly when
  \<open>thread_pitch \<le> 0\<close> or \<open>initial_torque \<le> removal_torque\<close> (equality included); for
  all other inputs whose \<open>initial_preload\<close> is not zero it returns a fully computed
  result, the ratio-method value under the flag and the exact-method value without it.
\<close>

theorem calculate_final_torque_errors_exactly:
  "(is_invalid_argument (calculate_final_torque Ti Tr P0 D p u) \<longleftrightarrow> (p \<le> 0 \<or> Ti \<le> Tr))
   \<and> (0 < p \<and> Tr < Ti \<and> P0 \<noteq> 0 \<longrightarrow>
        calculate_final_torque Ti Tr P0 D p u =
          Inr (if u then Ti * (D / P0) else (p * Ti * D) / (math_pi * (Ti - Tr))))"
  using math_pi_pos by (auto simp add: calculate_final_torque_def py_truediv_def)

text \<open>
  C7 (amended) on the worked example, under both values of the flag, and on the two
  rejected inputs of the tests: pitch 0, and equal torques.
\<close>

theorem calculate_final_torque_errors_exactly_witness:
  "(0::real) < 4 / 100 \<and> (214 / 10 :: real) < 25 \<and> (2827 / 10 :: real) \<noteq> 0
   \<and> calculate_final_torque 25 (214 / 10) (2827 / 10) 400 (4 / 100) False =
        Inr ((4 / 100) * 25 * 400 / (math_pi * (25 - 214 / 10)))
   \<and> calculate_final_torque 25 (214 / 10) (2827 / 10) 400 (4 / 100) True =
        Inr (25 * (400 / (2827 / 10)))
   \<and> is_invalid_argument (calculate_final_torque 25 20 200 300 0 False)
   \<and> is_invalid_argument (calculate_final_torque 25 25 200 300 (4 / 100) False)"
  using calculate_final_torque_errors_exactly [of 25 "214 / 10" "2827 / 10" 400 "4 / 100" False]
    calculate_final_torque_errors_exactly [of 25 "214 / 10" "2827 / 10" 400 "4 / 100" True]
    calculate_final_torque_errors_exactly [of 25 20 200 300 0 False]
    calculate_final_torque_errors_exactly [of 25 25 200 300 "4 / 100" False]
  by simp

text \<open>
  C9 says that, with the flag left false, two calls that differ only in
  \<open>initial_preload\<close> return equal results. The code evaluates the ratio-method division
  before it looks at the flag: on the worked example the call with \<open>initial_preload = 0\<close>
  ends in \<open>ZeroDivisionError\<close>, while the call with \<open>initial_preload = 282.7\<close> returns the
  exact-method torque, so the two calls differ.
\<close>

theorem exact_method_reads_initial_preload:
  "calculate_final_torque 25 (214 / 10) 0 400 (4 / 100) False = Inl ZeroDivisionError
   \<and> calculate_final_torque 25 (214 / 10) (2827 / 10) 400 (4 / 100) False =
        Inr ((4 / 100) * 25 * 400 / (math_pi * (25 - 214 / 10)))
   \<and> calculate_final_torque 25 (214 / 10) 0 400 (4 / 100) False \<noteq>
     calculate_final_torque 25 (214 / 10) (2827 / 10) 400 (4 / 100) False"
  using math_pi_pos by (simp add: calculate_final_torque_def py_truediv_def)

section \<open>Properties of the torque and stress model\<close>

text \<open>
  C4. With the default \<open>min_safety_factor = 1.5\<close>, \<open>assess_risk\<close> classifies a safety
  factor above 3.0 as Low, one from 1.5 to 3.0 as Medium and one from 0 to below 1.5 as
  High; the High recommendation, lower-cased, contains the phrase "not recommended"; and
  \<open>assess_risk\<close> raises, with the invalid-argument error, exactly when the safety factor
  is negative.
\<close>

theorem assess_risk_default_bands:
  "(3 < sf \<longrightarrow> risk_level (assess_risk sf default_min_safety_factor) = Some ''Low'')
   \<and> (3 / 2 \<le> sf \<and> sf \<le> 3 \<longrightarrow>
        risk_level (assess_risk sf default_min_safety_factor) = Some ''Medium'')
   \<and> (0 \<le> sf \<and> sf < 3 / 2 \<longrightarrow>
        risk_level (assess_risk sf default_min_safety_factor) = Some ''High''
        \<and> recommendation_mentions (assess_risk sf default_min_safety_factor)
             ''not recommended'')
   \<and> (is_invalid_argument (assess_risk sf default_min_safety_factor) \<longleftrightarrow> sf < 0)
   \<and> (raises (assess_risk sf default_min_safety_factor) \<longleftrightarrow> sf < 0)"
  using high_recommendation_lower
  by (simp add: assess_risk_def default_min_safety_factor_def)

text \<open>
  C4 at the safety factors 4, 2, 1, 0 and -1, and at the two band borders 3 and 1.5.
\<close>

theorem assess_risk_default_bands_witness:
  "risk_level (assess_risk 4 default_min_safety_factor) = Some ''Low''
   \<and> risk_level (assess_risk 2 default_min_safety_factor) = Some ''Medium''
   \<and> risk_level (assess_risk 3 default_min_safety_factor) = Some ''Medium''
   \<and> risk_level (assess_risk (3 / 2) default_min_safety_factor) = Some ''Medium''
   \<and> risk_level (assess_risk 1 default_min_safety_factor) = Some ''High''
   \<and> risk_level (assess_risk 0 default_min_safety_factor) = Some ''High''
   \<and> recommendation_mentions (assess_risk 1 default_min_safety_factor) ''not recommended''
   \<and> is_invalid_argument (assess_risk (- 1) default_min_safety_factor)"
  using assess_risk_default_bands [of 4] assess_risk_default_bands [of 2]
    assess_risk_default_bands [of 3] assess_risk_default_bands [of "3 / 2"]
    assess_risk_default_bands [of 1] assess_risk_default_bands [of 0]
    assess_risk_default_bands [of "- 1"]
  by simp

text \<open>
  C10. The Low band comes first: for every safety factor above 3.0 and every
  \<open>min_safety_factor\<close>, \<open>assess_risk\<close> returns Low, also when the safety factor is below
  the minimum the caller gave.
\<close>

theorem assess_risk_low_before_minimum:
  "3 < sf \<Longrightarrow> risk_level (assess_risk sf m) = Some ''Low''"
  by (simp add: assess_risk_def)

text \<open>
  C10 on the example \<open>assess_risk(3.5, min_safety_factor=4.0)\<close>, where 3.5 is below the
  minimum 4.0.
\<close>

theorem assess_risk_low_before_minimum_witness:
  "(3::real) < 35 / 10 \<and> (35 / 10 :: real) < 4
   \<and> risk_level (assess_risk (35 / 10) 4) = Some ''Low''"
  using assess_risk_low_before_minimum [of "35 / 10" 4] by simp

section \<open>Properties that depend on rounding\<close>

subsection \<open>Worked values\<close>

text \<open>
  Single operations on doubles, each checked against the definition of rounding: the
  exponent, the quantum and the rounded multiple are given, and the bounds verified.
\<close>

lemma fl_one: "fl 1 = Fin 1"
  using fl_eqI[of 0 1 "1 / 2 ^ 52" "2 ^ 52"]
  by (simp add: round_even_def max_double_def)

lemma fl_four: "fl 4 = Fin 4"
  using fl_eqI[of 2 4 "1 / 2 ^ 50" "2 ^ 52"]
  by (simp add: round_even_def max_double_def)

lemma fl_five: "fl 5 = Fin 5"
  using fl_eqI[of 2 5 "1 / 2 ^ 50" "5 * 2 ^ 50"]
  by (simp add: round_even_def max_double_def)

lemma fl_math_pi: "fl math_pi = Fin math_pi"
  using fl_eqI[of 1 math_pi "1 / 2 ^ 51" 7074237752028440]
  by (simp add: round_even_def max_double_def math_pi_def)

lemma fl_quarter_pi: "fl (math_pi / 4) = Fin (math_pi / 4)"
  using fl_eqI[of "- 1" "math_pi / 4" "1 / 2 ^ 53" 7074237752028440]
  by (simp add: round_even_def max_double_def math_pi_def)

lemma fl_five_pi: "fl (5 * math_pi) = Fin (5 * math_pi)"
  using fl_eqI[of 3 "5 * math_pi" "1 / 2 ^ 49" 8842797190035550]
  by (simp add: round_even_def max_double_def math_pi_def)

text \<open>The literal \<^verbatim>\<open>0.9382\<close> is the double \<open>8450554340797999 / 2 ^ 53\<close>.\<close>

lemma fl_literal_9382: "fl (9382 / 10000) = Fin (8450554340797999 / 2 ^ 53)"
  using fl_eqI[of "- 1" "9382 / 10000" "1 / 2 ^ 53" 8450554340797999]
  by (simp add: round_even_def max_double_def)

lemma fl_double_9382: "fl (8450554340797999 / 2 ^ 53) = Fin (8450554340797999 / 2 ^ 53)"
  using fl_eqI[of "- 1" "8450554340797999 / 2 ^ 53" "1 / 2 ^ 53" 8450554340797999]
  by (simp add: round_even_def max_double_def)

lemma fl_half_9382: "fl (8450554340797999 / 2 ^ 54) = Fin (8450554340797999 / 2 ^ 54)"
  using fl_eqI[of "- 2" "8450554340797999 / 2 ^ 54" "1 / 2 ^ 54" 8450554340797999]
  by (simp add: round_even_def max_double_def)

lemma fl_effective_example:
  "fl (2 - 8450554340797999 / 2 ^ 54) = Fin (6894560669541492 / 2 ^ 52)"
  using fl_eqI[of 0 "2 - 8450554340797999 / 2 ^ 54" "1 / 2 ^ 52" 6894560669541492]
  by (simp add: round_even_def max_double_def)

text \<open>The effective diameter of a 2 mm screw with pitch 0.5 mm, about 1.5309 mm.\<close>

lemma effective_diameter_example:
  "effective_diameter (Fin 2) (Fin (1 / 2)) = Fin (6894560669541492 / 2 ^ 52)"
  using fl_literal_9382 fl_half_9382 fl_effective_example
  by (simp add: effective_diameter_def)

subsection \<open>The two final-torque methods\<close>

text \<open>
  C2, as stated, fails on doubles: the two methods round differently. With the torques 5
  and 4 and the pitch 1, \<open>calculate_preload\<close> returns \<open>math.pi\<close>; with that initial
  preload and the desired preload \<open>3 * 2 ^ 60\<close>, the exact method returns
  5504794693653752832 and the ratio method 5504794693653751808. They differ by 1024, not
  by at most 0.01.
\<close>

theorem final_torque_methods_differ_counterexample:
  "calculate_preload_f64 (Fin 5) (Fin 4) (Fin 1) = Inr (Fin math_pi)
   \<and> calculate_final_torque_f64 (Fin 5) (Fin 4) (Fin math_pi) (Fin (3 * 2 ^ 60)) (Fin 1) False
       = Inr (Fin 5504794693653752832)
   \<and> calculate_final_torque_f64 (Fin 5) (Fin 4) (Fin math_pi) (Fin (3 * 2 ^ 60)) (Fin 1) True
       = Inr (Fin 5504794693653751808)
   \<and> \<not> \<bar>5504794693653752832 - 5504794693653751808 :: real\<bar> \<le> 1 / 100"
proof -
  have q: "fl (3 * 2 ^ 60 / math_pi) = Fin (8601241708833988 * 2 ^ 7)"
    using fl_eqI[of 59 "3 * 2 ^ 60 / math_pi" "2 ^ 7" 8601241708833988]
    by (simp add: round_even_def max_double_def math_pi_def)
  have b: "fl (5 * (8601241708833988 * 2 ^ 7)) = Fin 5504794693653751808"
    using fl_eqI[of 62 "5 * (8601241708833988 * 2 ^ 7)" "2 ^ 10" 5375776068021242]
    by (simp add: round_even_def max_double_def)
  have n2: "fl (5 * (3 * 2 ^ 60)) = Fin (15 * 2 ^ 60)"
    using fl_eqI[of 63 "5 * (3 * 2 ^ 60)" "2 ^ 11" "15 * 2 ^ 49"]
    by (simp add: round_even_def max_double_def)
  have a: "fl (15 * 2 ^ 60 / math_pi) = Fin 5504794693653752832"
    using fl_eqI[of 62 "15 * 2 ^ 60 / math_pi" "2 ^ 10" 5375776068021243]
    by (simp add: round_even_def max_double_def math_pi_def)
  have nz: "math_pi \<noteq> 0" using math_pi_pos by simp
  have 1: "calculate_preload_f64 (Fin 5) (Fin 4) (Fin 1) = Inr (Fin math_pi)"
    using fl_one fl_math_pi by (simp add: calculate_preload_f64_def py_truediv_f64_def)
  have 2: "calculate_final_torque_f64 (Fin 5) (Fin 4) (Fin math_pi) (Fin (3 * 2 ^ 60)) (Fin 1) u
      = Inr (Fin (if u then 5504794693653751808 else 5504794693653752832))" for u
    using nz fl_one fl_five fl_math_pi q b n2 a
    by (simp add: calculate_final_torque_f64_def py_truediv_f64_def)
  show ?thesis using 1 2[of False] 2[of True] by simp
qed

text \<open>
  C2, amended. For every \<open>(Tt, Tr, p)\<close> with \<open>Tt > Tr\<close> and \<open>p > 0\<close> in which the
  difference \<open>Tt - Tr\<close> and the pitch \<open>p\<close> are moderate (between \<open>2 ^ (- 100)\<close> and
  \<open>2 ^ 100\<close>) and \<open>Tt\<close> is of such magnitude, and for every desired preload that is zero
  or of such magnitude: \<open>calculate_preload\<close> returns a finite preload, with that initial
  preload both methods of \<open>calculate_final_torque\<close> return finite torques, and the two
  torques agree to within the relative error \<open>2 ^ (- 49)\<close> of the exact-method torque;
  they agree to within 0.01 absolute whenever that torque is at most \<open>2 ^ 42\<close> in
  magnitude.
\<close>

theorem final_torque_methods_agree:
  assumes dT: "moderate (Tt - Tr)" and p: "moderate p"
    and Tt: "2 powi (- 100) \<le> \<bar>Tt\<bar>" "\<bar>Tt\<bar> \<le> 2 powi 100"
    and D: "D = 0 \<or> (2 powi (- 100) \<le> \<bar>D\<bar> \<and> \<bar>D\<bar> \<le> 2 powi 100)"
  shows "\<exists>P a b. calculate_preload_f64 (Fin Tt) (Fin Tr) (Fin p) = Inr (Fin P)
     \<and> calculate_final_torque_f64 (Fin Tt) (Fin Tr) (Fin P) (Fin D) (Fin p) False = Inr (Fin a)
     \<and> calculate_final_torque_f64 (Fin Tt) (Fin Tr) (Fin P) (Fin D) (Fin p) True = Inr (Fin b)
     \<and> \<bar>a - b\<bar> \<le> \<bar>a\<bar> / 2 ^ 49
     \<and> (\<bar>a\<bar> \<le> 2 ^ 42 \<longrightarrow> \<bar>a - b\<bar> \<le> 1 / 100)"
proof -
  have ppos: "0 < p" and dpos: "0 < Tt - Tr" using moderate_pos[OF p] moderate_pos[OF dT] .
  have Ttm: "mag (- 100) 100 Tt" using Tt by (simp add: mag_def)
  note pm = moderate_mag[OF p] and dm = moderate_mag[OF dT]
  have nz: "Tt \<noteq> 0" "p \<noteq> 0" "Tt - Tr \<noteq> 0" "math_pi \<noteq> 0"
    using mag_nonzero[OF Ttm] ppos dpos math_pi_pos by simp_all
  \<comment> \<open>the torque difference, computed once in each function\<close>
  define s where "s = rnd (Tt - Tr)"
  have s: "fl (Tt - Tr) = Fin s" "mag (- 100) 100 s"
    unfolding s_def using fl_mag[OF dm] by simp_all
  have sr: "rel 1 s (Tt - Tr)"
    unfolding s_def using rel_rnd_mag[OF dm _ rel_refl[OF nz(3)]] by (simp add: eval_nat_numeral)
  \<comment> \<open>the preload\<close>
  define m1 where "m1 = rnd (s * math_pi)"
  have m1m: "mag (- 99) 102 (s * math_pi)" using mag_mult[OF s(2) math_pi_mag] by simp
  have m1: "fl (s * math_pi) = Fin m1" "mag (- 99) 102 m1"
    unfolding m1_def using fl_mag[OF m1m] by simp_all
  have m1r: "rel 2 m1 ((Tt - Tr) * math_pi)"
    unfolding m1_def using rel_rnd_mag[OF m1m _ rel_mult[OF sr rel_refl[OF nz(4)]]]
    by (simp add: eval_nat_numeral)
  define P where "P = rnd (m1 / p)"
  have Pm: "mag (- 199) 202 (m1 / p)" using mag_div[OF m1(2) pm] by simp
  have P: "fl (m1 / p) = Fin P" "mag (- 199) 202 P"
    unfolding P_def using fl_mag[OF Pm] by simp_all
  have Pr: "rel 3 P ((Tt - Tr) * math_pi / p)"
    unfolding P_def using rel_rnd_mag[OF Pm _ rel_div[OF m1r rel_refl[OF nz(2)]]]
    by (simp add: eval_nat_numeral)
  have preload: "calculate_preload_f64 (Fin Tt) (Fin Tr) (Fin p) = Inr (Fin P)"
    using ppos by (simp add: calculate_preload_f64_def py_truediv_f64_def s(1) m1(1) P(1))
  \<comment> \<open>the two factors of the exact method that do not depend on the desired preload\<close>
  define n1 where "n1 = rnd (p * Tt)"
  have n1m: "mag (- 200) 200 (p * Tt)" using mag_mult[OF pm Ttm] by simp
  have n1: "fl (p * Tt) = Fin n1" "mag (- 200) 200 n1"
    unfolding n1_def using fl_mag[OF n1m] by simp_all
  have n1r: "rel 1 n1 (p * Tt)"
    unfolding n1_def using rel_rnd_mag[OF n1m _ rel_mult[OF rel_refl[OF nz(2)] rel_refl[OF nz(1)]]]
    by (simp add: eval_nat_numeral)
  define dn where "dn = rnd (math_pi * s)"
  have dnm: "mag (- 99) 102 (math_pi * s)" using mag_mult[OF math_pi_mag s(2)] by simp
  have dn: "fl (math_pi * s) = Fin dn" "mag (- 99) 102 dn"
    unfolding dn_def using fl_mag[OF dnm] by simp_all
  have dnr: "rel 2 dn (math_pi * (Tt - Tr))"
    unfolding dn_def using rel_rnd_mag[OF dnm _ rel_mult[OF rel_refl[OF nz(4)] sr]]
    by (simp add: eval_nat_numeral)
  have guard: "\<not> dle (Fin Tt) (Fin Tr)" using dpos by simp
  have Pnz: "Fin P \<noteq> Fin 0" using mag_nonzero[OF P(2)] by simp
  have dnnz: "Fin dn \<noteq> Fin 0" using mag_nonzero[OF dn(2)] by simp
  show ?thesis
  proof (cases "D = 0")
    case True
    have "calculate_final_torque_f64 (Fin Tt) (Fin Tr) (Fin P) (Fin D) (Fin p) u = Inr (Fin 0)"
      for u
      using ppos guard Pnz dnnz True
      by (simp add: calculate_final_torque_f64_def py_truediv_f64_def s(1) n1(1) dn(1))
    from preload this[of False] this[of True] show ?thesis by force
  next
    case False
    with D have Dm: "mag (- 100) 100 D" by (simp add: mag_def)
    \<comment> \<open>the ratio method\<close>
    define q where "q = rnd (D / P)"
    have qm: "mag (- 302) 299 (D / P)" using mag_div[OF Dm P(2)] by simp
    have q: "fl (D / P) = Fin q" "mag (- 302) 299 q"
      unfolding q_def using fl_mag[OF qm] by simp_all
    have qr: "rel 4 q (D / ((Tt - Tr) * math_pi / p))"
      unfolding q_def using rel_rnd_mag[OF qm _ rel_div[OF rel_refl[OF False] Pr]]
      by (simp add: eval_nat_numeral)
    define b where "b = rnd (Tt * q)"
    have bm: "mag (- 402) 399 (Tt * q)" using mag_mult[OF Ttm q(2)] by simp
    have b: "fl (Tt * q) = Fin b" "mag (- 402) 399 b"
      unfolding b_def using fl_mag[OF bm] by simp_all
    have br: "rel 5 b (Tt * (D / ((Tt - Tr) * math_pi / p)))"
      unfolding b_def using rel_rnd_mag[OF bm _ rel_mult[OF rel_refl[OF nz(1)] qr]]
      by (simp add: eval_nat_numeral)
    \<comment> \<open>the exact method\<close>
    define n2 where "n2 = rnd (n1 * D)"
    have n2m: "mag (- 300) 300 (n1 * D)" using mag_mult[OF n1(2) Dm] by simp
    have n2: "fl (n1 * D) = Fin n2" "mag (- 300) 300 n2"
      unfolding n2_def using fl_mag[OF n2m] by simp_all
    have n2r: "rel 2 n2 (p * Tt * D)"
      unfolding n2_def using rel_rnd_mag[OF n2m _ rel_mult[OF n1r rel_refl[OF False]]]
      by (simp add: eval_nat_numeral)
    define a where "a = rnd (n2 / dn)"
    have am: "mag (- 402) 399 (n2 / dn)" using mag_div[OF n2(2) dn(2)] by simp
    have a: "fl (n2 / dn) = Fin a" "mag (- 402) 399 a"
      unfolding a_def using fl_mag[OF am] by simp_all
    have ar: "rel 5 a (p * Tt * D / (math_pi * (Tt - Tr)))"
      unfolding a_def using rel_rnd_mag[OF am _ rel_div[OF n2r dnr]]
      by (simp add: eval_nat_numeral)
    \<comment> \<open>both methods return\<close>
    have ft: "calculate_final_torque_f64 (Fin Tt) (Fin Tr) (Fin P) (Fin D) (Fin p) u
        = Inr (Fin (if u then b else a))" for u
      using ppos guard Pnz dnnz
      by (simp add: calculate_final_torque_f64_def py_truediv_f64_def
          s(1) q(1) b(1) n1(1) n2(1) dn(1) a(1))
    \<comment> \<open>and agree up to ten roundings\<close>
    have "Tt * (D / ((Tt - Tr) * math_pi / p)) = p * Tt * D / (math_pi * (Tt - Tr))"
      using nz by (simp add: field_simps)
    with br have "rel 5 b (p * Tt * D / (math_pi * (Tt - Tr)))" by simp
    from rel_trans[OF this rel_sym[OF ar]] have "rel 10 b a" by simp
    then have "\<bar>b - a\<bar> \<le> \<bar>a\<bar> / 2 ^ 49" by (rule rel_ten_bound)
    then have bound: "\<bar>a - b\<bar> \<le> \<bar>a\<bar> / 2 ^ 49" by (simp add: abs_minus_commute)
    have "\<bar>a - b\<bar> \<le> 1 / 100" if "\<bar>a\<bar> \<le> 2 ^ 42"
    proof -
      have "\<bar>a\<bar> / 2 ^ 49 \<le> 2 ^ 42 / 2 ^ 49" using that by (intro divide_right_mono) simp_all
      also have "\<dots> \<le> (1 / 100 :: real)" by simp
      finally show ?thesis using bound by linarith
    qed
    with preload ft[of False] ft[of True] bound show ?thesis by auto
  qed
qed

text \<open>
  C2 (amended) at the torques 5 and 4, the pitch 1 and the desired preload \<open>math.pi\<close>:
  the preload is \<open>math.pi\<close>, both methods return the torque 5, which is below \<open>2 ^ 42\<close>,
  and the two torques are within 0.01.
\<close>

theorem final_torque_methods_agree_witness:
  "moderate (5 - 4) \<and> moderate 1 \<and> 2 powi (- 100) \<le> \<bar>5 :: real\<bar> \<and> \<bar>5 :: real\<bar> \<le> 2 powi 100
   \<and> 2 powi (- 100) \<le> \<bar>math_pi\<bar> \<and> \<bar>math_pi\<bar> \<le> 2 powi 100
   \<and> calculate_preload_f64 (Fin 5) (Fin 4) (Fin 1) = Inr (Fin math_pi)
   \<and> calculate_final_torque_f64 (Fin 5) (Fin 4) (Fin math_pi) (Fin math_pi) (Fin 1) False
       = Inr (Fin 5)
   \<and> calculate_final_torque_f64 (Fin 5) (Fin 4) (Fin math_pi) (Fin math_pi) (Fin 1) True
       = Inr (Fin 5)
   \<and> \<bar>5 :: real\<bar> \<le> 2 ^ 42 \<and> \<bar>5 - 5 :: real\<bar> \<le> 1 / 100"
proof -
  have h: "moderate (5 - 4)" "moderate 1" "2 powi (- 100) \<le> \<bar>5 :: real\<bar>"
    "\<bar>5 :: real\<bar> \<le> 2 powi 100" "2 powi (- 100) \<le> \<bar>math_pi\<bar>" "\<bar>math_pi\<bar> \<le> 2 powi 100"
    by (simp_all add: moderate_def math_pi_def)
  have nz: "math_pi \<noteq> 0" using math_pi_pos by simp
  have 1: "calculate_preload_f64 (Fin 5) (Fin 4) (Fin 1) = Inr (Fin math_pi)"
    using fl_one fl_math_pi by (simp add: calculate_preload_f64_def py_truediv_f64_def)
  have 2: "calculate_final_torque_f64 (Fin 5) (Fin 4) (Fin math_pi) (Fin math_pi) (Fin 1) u
      = Inr (Fin 5)" for u
    using nz fl_one fl_five fl_math_pi fl_five_pi
    by (simp add: calculate_final_torque_f64_def py_truediv_f64_def)
  from final_torque_methods_agree[OF h(1,2,3,4), of math_pi] h(5,6)
  obtain P a b where r: "calculate_preload_f64 (Fin 5) (Fin 4) (Fin 1) = Inr (Fin P)"
    "calculate_final_torque_f64 (Fin 5) (Fin 4) (Fin P) (Fin math_pi) (Fin 1) False = Inr (Fin a)"
    "calculate_final_torque_f64 (Fin 5) (Fin 4) (Fin P) (Fin math_pi) (Fin 1) True = Inr (Fin b)"
    "\<bar>a\<bar> \<le> 2 ^ 42 \<longrightarrow> \<bar>a - b\<bar> \<le> 1 / 100"
    by blast
  from r(1) 1 have P: "P = math_pi" by simp
  from r(2,3) 2[of False] 2[of True] have ab: "a = 5" "b = 5" by (simp_all add: P)
  from r(4) have "\<bar>5 - 5 :: real\<bar> \<le> 1 / 100" by (simp add: ab)
  with h 1 2[of False] 2[of True] show ?thesis by simp
qed

subsection \<open>Self-loosening and primary locking\<close>

text \<open>
  C8, as stated, fails on doubles. With \<open>Tt = 35\<close> and \<open>Tr = 10 ^ 16\<close> the difference
  and the sum are rounded to even multiples of 2, and the two components add up to 36.
  With \<open>Tt = 3 * 2 ^ 1022\<close> and \<open>Tr = 2 ^ 1023\<close> the sum \<open>Tt + Tr\<close> overflows, and the two
  components add up to infinity.
\<close>

theorem self_loosening_locking_sum_counterexample:
  "py_add (calculate_self_loosening (Fin 35) (Fin (10 ^ 16)))
          (calculate_primary_locking (Fin 35) (Fin (10 ^ 16))) = Inr (Fin 36)
   \<and> py_add (calculate_self_loosening (Fin (3 * 2 ^ 1022)) (Fin (2 ^ 1023)))
          (calculate_primary_locking (Fin (3 * 2 ^ 1022)) (Fin (2 ^ 1023))) = Inr PInf"
proof -
  have a: "fl (35 - 10 ^ 16) = Fin (- 9999999999999964)"
    using fl_eqI[of 53 "35 - 10 ^ 16" 2 "- 4999999999999982"]
    by (simp add: round_even_def max_double_def)
  have b: "fl (35 + 10 ^ 16) = Fin 10000000000000036"
    using fl_eqI[of 53 "35 + 10 ^ 16" 2 "5000000000000018"]
    by (simp add: round_even_def max_double_def)
  have c: "fl (- 9999999999999964 / 2) = Fin (- 4999999999999982)"
    using fl_eqI[of 52 "- 9999999999999964 / 2" 1 "- 4999999999999982"]
    by (simp add: round_even_def max_double_def)
  have d: "fl (10000000000000036 / 2) = Fin 5000000000000018"
    using fl_eqI[of 52 "10000000000000036 / 2" 1 "5000000000000018"]
    by (simp add: round_even_def max_double_def)
  have e: "fl (- 4999999999999982 + 5000000000000018) = Fin 36"
    using fl_eqI[of 5 "- 4999999999999982 + 5000000000000018" "1 / 2 ^ 47" "36 * 2 ^ 47"]
    by (simp add: round_even_def max_double_def)
  have sl: "calculate_self_loosening (Fin 35) (Fin (10 ^ 16)) = Inr (Fin (- 4999999999999982))"
    using a c by (simp add: calculate_self_loosening_def py_truediv_f64_def)
  have pl: "calculate_primary_locking (Fin 35) (Fin (10 ^ 16)) = Inr (Fin 5000000000000018)"
    using b d by (simp add: calculate_primary_locking_def py_truediv_f64_def)
  have first: "py_add (calculate_self_loosening (Fin 35) (Fin (10 ^ 16)))
          (calculate_primary_locking (Fin 35) (Fin (10 ^ 16))) = Inr (Fin 36)"
    unfolding sl pl using e by simp
  have f: "fl (3 * 2 ^ 1022 - 2 ^ 1023) = Fin (2 ^ 1022)"
    using fl_eqI[of 1022 "3 * 2 ^ 1022 - 2 ^ 1023" "2 ^ 970" "2 ^ 52"]
    by (simp add: round_even_def max_double_def)
  have g: "fl (2 ^ 1022 / 2) = Fin (2 ^ 1021)"
    using fl_eqI[of 1021 "2 ^ 1022 / 2" "2 ^ 969" "2 ^ 52"]
    by (simp add: round_even_def max_double_def)
  have h: "fl (3 * 2 ^ 1022 + 2 ^ 1023) = PInf"
    using fl_infI[of 1024 "3 * 2 ^ 1022 + 2 ^ 1023" "2 ^ 972" "5 * 2 ^ 50"]
    by (simp add: round_even_def max_double_def)
  have sl2: "calculate_self_loosening (Fin (3 * 2 ^ 1022)) (Fin (2 ^ 1023)) = Inr (Fin (2 ^ 1021))"
    using f g by (simp add: calculate_self_loosening_def py_truediv_f64_def)
  have pl2: "calculate_primary_locking (Fin (3 * 2 ^ 1022)) (Fin (2 ^ 1023)) = Inr PInf"
    using h by (simp add: calculate_primary_locking_def py_truediv_f64_def)
  have second: "py_add (calculate_self_loosening (Fin (3 * 2 ^ 1022)) (Fin (2 ^ 1023)))
          (calculate_primary_locking (Fin (3 * 2 ^ 1022)) (Fin (2 ^ 1023))) = Inr PInf"
    unfolding sl2 pl2 by simp
  from first second show ?thesis by (rule conjI)
qed

text \<open>
  C8, amended. For every tightening torque \<open>Tt\<close> and removal torque \<open>Tr\<close> of magnitude
  at most \<open>2 ^ 1022\<close> (a quarter of the largest double), neither component raises, their
  sum \<open>calculate_self_loosening(Tt, Tr) + calculate_primary_locking(Tt, Tr)\<close> is a finite
  double, and it equals \<open>Tt\<close> up to rounding: the difference is at most
  \<open>2 ^ (- 51)\<close> times the larger of \<open>\<bar>Tt\<bar>\<close> and \<open>\<bar>Tr\<bar>\<close>, plus \<open>2 ^ (- 1072)\<close> (eight
  times the largest rounding error near zero).
\<close>

theorem self_loosening_plus_primary_locking:
  assumes Tt: "\<bar>Tt\<bar> \<le> 2 powi 1022" and Tr: "\<bar>Tr\<bar> \<le> 2 powi 1022"
  shows "\<exists>r. py_add (calculate_self_loosening (Fin Tt) (Fin Tr))
                    (calculate_primary_locking (Fin Tt) (Fin Tr)) = Inr (Fin r)
             \<and> \<bar>r - Tt\<bar> \<le> max \<bar>Tt\<bar> \<bar>Tr\<bar> / 2 ^ 51 + 2 powi (- 1072)"
proof -
  have assms: "\<bar>Tt\<bar> \<le> quarter_max" "\<bar>Tr\<bar> \<le> quarter_max"
    using Tt Tr by (simp_all add: quarter_max_def)
  define a where "a = rnd (Tt - Tr)"
  define b where "b = rnd (Tt + Tr)"
  define sl where "sl = rnd (a / 2)"
  define pl where "pl = rnd (b / 2)"
  define r where "r = rnd (sl + pl)"
  define M where "M = max \<bar>Tt\<bar> \<bar>Tr\<bar>"
  define AD where "AD = \<bar>Tt - Tr\<bar>"
  define AS where "AS = \<bar>Tt + Tr\<bar>"
  define E1 where "E1 = \<bar>a - (Tt - Tr)\<bar>"
  define E2 where "E2 = \<bar>b - (Tt + Tr)\<bar>"
  define E3 where "E3 = \<bar>sl - a / 2\<bar>"
  define E4 where "E4 = \<bar>pl - b / 2\<bar>"
  define E5 where "E5 = \<bar>r - (sl + pl)\<bar>"
  note B = max_double_quarter_max[simplified] eta_quarter_max[simplified] quarter_max_pos eta_pos
  have M: "M \<le> quarter_max" "0 \<le> M" using assms by (simp_all add: M_def)
  have DS: "AD + AS = 2 * M" unfolding AD_def AS_def M_def by (rule abs_diff_plus_sum)
  have pos: "0 \<le> AD" "0 \<le> AS" by (simp_all add: AD_def AS_def)
  have e1: "E1 \<le> AD / 2 ^ 53 + eta"
    unfolding a_def E1_def AD_def by (rule rnd_error)
  have e2: "E2 \<le> AS / 2 ^ 53 + eta"
    unfolding b_def E2_def AS_def by (rule rnd_error)
  have a: "\<bar>a\<bar> \<le> AD + E1" unfolding AD_def E1_def by linarith
  have b: "\<bar>b\<bar> \<le> AS + E2" unfolding AS_def E2_def by linarith
  have "E3 \<le> \<bar>a / 2\<bar> / 2 ^ 53 + eta"
    unfolding sl_def E3_def by (rule rnd_error)
  then have e3: "E3 \<le> AD / 2 ^ 54 + E1 / 2 ^ 54 + eta" using a by simp
  have "E4 \<le> \<bar>b / 2\<bar> / 2 ^ 53 + eta"
    unfolding pl_def E4_def by (rule rnd_error)
  then have e4: "E4 \<le> AS / 2 ^ 54 + E2 / 2 ^ 54 + eta" using b by simp
  have sl: "\<bar>sl\<bar> \<le> AD / 2 + E1 / 2 + E3" using a unfolding E3_def by linarith
  have pl: "\<bar>pl\<bar> \<le> AS / 2 + E2 / 2 + E4" using b unfolding E4_def by linarith
  have t: "\<bar>sl + pl\<bar> \<le> AD / 2 + E1 / 2 + E3 + (AS / 2 + E2 / 2 + E4)"
    using sl pl by linarith
  define x1 where "x1 = a - (Tt - Tr)"
  define x2 where "x2 = b - (Tt + Tr)"
  define x3 where "x3 = sl - a / 2"
  define x4 where "x4 = pl - b / 2"
  have "sl + pl - Tt = x3 + x4 + (x1 / 2 + x2 / 2)"
    by (simp add: x1_def x2_def x3_def x4_def field_simps)
  moreover have "\<bar>x1 / 2 + x2 / 2\<bar> \<le> \<bar>x1\<bar> / 2 + \<bar>x2\<bar> / 2"
    by linarith
  ultimately have "\<bar>sl + pl - Tt\<bar> \<le> \<bar>x3\<bar> + \<bar>x4\<bar> + (\<bar>x1\<bar> / 2 + \<bar>x2\<bar> / 2)"
    by linarith
  then have tt: "\<bar>sl + pl - Tt\<bar> \<le> E3 + E4 + E1 / 2 + E2 / 2"
    by (simp add: E1_def E2_def E3_def E4_def x1_def x2_def x3_def x4_def)
  have t': "\<bar>sl + pl\<bar> \<le> \<bar>Tt\<bar> + (E3 + E4 + E1 / 2 + E2 / 2)" using tt by linarith
  have "E5 \<le> \<bar>sl + pl\<bar> / 2 ^ 53 + eta"
    unfolding r_def E5_def by (rule rnd_error)
  moreover have "\<bar>Tt\<bar> \<le> M" by (simp add: M_def)
  ultimately have e5: "E5 \<le> M / 2 ^ 53 + E3 / 2 ^ 53 + E4 / 2 ^ 53
      + E1 / 2 ^ 54 + E2 / 2 ^ 54 + eta"
    using t' by simp
  have r: "\<bar>r\<bar> \<le> \<bar>sl + pl\<bar> + E5" unfolding E5_def by linarith
  note e = e1[simplified] e2[simplified] e3[simplified] e4[simplified] e5[simplified]
  have fa: "\<bar>a\<bar> \<le> max_double" using a e M DS pos B by linarith
  have fb: "\<bar>b\<bar> \<le> max_double" using b e M DS pos B by linarith
  have fsl: "\<bar>sl\<bar> \<le> max_double" using sl e M DS pos B by linarith
  have fpl: "\<bar>pl\<bar> \<le> max_double" using pl e M DS pos B by linarith
  have fr: "\<bar>r\<bar> \<le> max_double" using r t e M DS pos B by linarith
  have 1: "fl (Tt - Tr) = Fin a"
    using fa by (simp add: a_def fl_finite)
  have 2: "fl (Tt + Tr) = Fin b"
    using fb by (simp add: b_def fl_finite)
  have 3: "calculate_self_loosening (Fin Tt) (Fin Tr) = Inr (Fin sl)"
    using fsl by (simp add: calculate_self_loosening_def py_truediv_f64_def 1 sl_def fl_finite)
  have 4: "calculate_primary_locking (Fin Tt) (Fin Tr) = Inr (Fin pl)"
    using fpl by (simp add: calculate_primary_locking_def py_truediv_f64_def 2 pl_def fl_finite)
  have 5: "py_add (calculate_self_loosening (Fin Tt) (Fin Tr))
                  (calculate_primary_locking (Fin Tt) (Fin Tr)) = Inr (Fin r)"
    using fr by (simp add: 3 4 r_def fl_finite)
  have "\<bar>r - Tt\<bar> \<le> E5 + (E3 + E4 + E1 / 2 + E2 / 2)"
    using tt unfolding E5_def by linarith
  also have "\<dots> \<le> M / 2 ^ 51 + 8 * eta"
    using e DS pos M eta_pos by simp
  also have "8 * eta = 2 powi (- 1072)"
    by (simp add: eta_def power_int_minus_divide)
  finally show ?thesis using 5 unfolding M_def by blast
qed

text \<open>
  C8 (amended) at the torques 35 and 30: the sum is a finite double within
  \<open>35 / 2 ^ 51 + 2 ^ (- 1072)\<close> of 35.
\<close>

theorem self_loosening_plus_primary_locking_witness:
  "\<bar>35 :: real\<bar> \<le> 2 powi 1022 \<and> \<bar>30 :: real\<bar> \<le> 2 powi 1022
   \<and> (\<exists>r. py_add (calculate_self_loosening (Fin 35) (Fin 30))
                  (calculate_primary_locking (Fin 35) (Fin 30)) = Inr (Fin r)
            \<and> \<bar>r - 35\<bar> \<le> max \<bar>35\<bar> \<bar>30\<bar> / 2 ^ 51 + 2 powi (- 1072))"
proof -
  have h: "\<bar>35 :: real\<bar> \<le> 2 powi 1022" "\<bar>30 :: real\<bar> \<le> 2 powi 1022"
    by simp_all
  from self_loosening_plus_primary_locking[OF h] h show ?thesis
    by blast
qed

subsection \<open>From torque to safety factor\<close>

lemma tensile_area_positive:
  assumes dn: "moderate dn" and p: "moderate p"
    and eff: "effective_diameter (Fin dn) (Fin p) = Fin e" and e: "2 powi (- 100) \<le> \<bar>e\<bar>"
  shows "\<exists>A. calculate_tensile_area (Fin dn) (Fin p) = Inr (Fin A) \<and> 0 < A
             \<and> mag (- 201) 202 A"
proof -
  note pos = moderate_pos[OF dn] moderate_pos[OF p]
  \<comment> \<open>the effective diameter is at most \<open>2 ^ 102\<close> in magnitude\<close>
  define c0 where "c0 = rnd (9382 / 10000)"
  have c0: "fl (9382 / 10000) = Fin c0" "mag (- 1) 0 c0"
    unfolding c0_def using fl_mag[OF literal_9382_mag] by simp_all
  define cp where "cp = rnd (c0 * p)"
  have cpm: "mag (- 101) 100 (c0 * p)"
    using mag_mult[OF c0(2) moderate_mag[OF p]] by simp
  have cp: "fl (c0 * p) = Fin cp" "mag (- 101) 100 cp"
    unfolding cp_def using fl_mag[OF cpm] by simp_all
  have "effective_diameter (Fin dn) (Fin p) = fl (dn - cp)"
    unfolding effective_diameter_def c0(1) by (simp add: cp(1))
  with eff have fe: "fl (dn - cp) = Fin e" by simp
  have e_eq: "e = rnd (dn - cp)"
    using fe by (auto simp: fl_def Let_def split: if_splits)
  have "\<bar>dn - cp\<bar> \<le> 2 powi 100 + 2 powi 100"
    using dn cp(2) pos(1) unfolding moderate_def mag_def by linarith
  also have "\<dots> = 2 powi 101" by simp
  finally have "\<bar>dn - cp\<bar> \<le> 2 powi 101" .
  have eup: "\<bar>e\<bar> \<le> 2 powi 101"
  proof (cases "2 powi (- 1022) \<le> \<bar>dn - cp\<bar>")
    case True
    then have "mag (- 1022) 101 (dn - cp)" using \<open>\<bar>dn - cp\<bar> \<le> 2 powi 101\<close> by (simp add: mag_def)
    from mag_rnd[OF _ this] show ?thesis by (simp add: e_eq mag_def)
  next
    case False
    define x where "x = dn - cp"
    have "\<bar>e - x\<bar> \<le> \<bar>x\<bar> / 2 ^ 53 + eta" unfolding e_eq x_def by (rule rnd_error)
    then have "\<bar>e - x\<bar> \<le> \<bar>x\<bar> / 9007199254740992 + eta" by simp
    moreover have "eta \<le> 1" by (simp add: eta_def power_int_minus_divide)
    moreover have "(2::real) powi (- 1022) \<le> 1" by (simp add: power_int_minus_divide)
    moreover have "\<bar>x\<bar> < 2 powi (- 1022)" using False by (simp add: x_def)
    ultimately have "\<bar>e\<bar> \<le> 4" by linarith
    moreover have "(4::real) \<le> 2 powi 101" by simp
    ultimately show ?thesis by linarith
  qed
  have em: "mag (- 100) 101 e" using e eup by (simp add: mag_def)
  \<comment> \<open>the tensile area\<close>
  define sq where "sq = rnd (e * e)"
  have sqm: "mag (- 200) 202 (e * e)" using mag_mult[OF em em] by simp
  have sq: "fl (e * e) = Fin sq" "mag (- 200) 202 sq"
    unfolding sq_def using fl_mag[OF sqm] by simp_all
  have "0 < e * e" using mag_nonzero[OF em] by (auto simp: zero_less_mult_iff)
  then have sqpos: "0 < sq" unfolding sq_def
    using sqm by (intro rnd_pos[where a = "- 200"]) simp_all
  define qp where "qp = rnd (math_pi / 4)"
  have qp: "fl (math_pi / 4) = Fin qp" "mag (- 1) 0 qp"
    unfolding qp_def using fl_mag[OF quarter_pi_mag] by simp_all
  have qppos: "0 < qp" unfolding qp_def
    using quarter_pi_mag math_pi_pos by (intro rnd_pos[where a = "- 1"]) simp_all
  define A where "A = rnd (qp * sq)"
  have Am: "mag (- 201) 202 (qp * sq)" using mag_mult[OF qp(2) sq(2)] by simp
  have A: "fl (qp * sq) = Fin A" "mag (- 201) 202 A"
    unfolding A_def using fl_mag[OF Am] by simp_all
  have Apos: "0 < A" unfolding A_def
    using Am qppos sqpos by (intro rnd_pos[where a = "- 201"]) simp_all
  have area: "calculate_tensile_area (Fin dn) (Fin p) = Inr (Fin A)"
    using pos by (simp add: calculate_tensile_area_def py_truediv_f64_def qp(1) eff sq(1) A(1))
  with Apos A(2) show ?thesis by blast
qed

text \<open>
  C5, as stated, fails. First, a nominal diameter equal to the product
  \<open>0.9382 * p\<close> gives the effective diameter 0 and the tensile area 0, which
  \<open>calculate_stress_from_preload\<close> rejects: with \<open>d\<close> the double \<open>0.9382\<close>, \<open>p = 1\<close> and
  \<open>T = K = yield_strength = 1\<close> the composition raises. Second, a small torque
  underflows: with \<open>T = 2 ^ (- 1074)\<close> (the smallest positive double), screw diameter 1,
  \<open>K = 4\<close>, nominal diameter 2 and pitch 0.5 the preload is rounded to zero, the stress
  is zero, and \<open>calculate_safety_factor\<close> rejects it.
\<close>

theorem zero_tensile_area_counterexample:
  "(0 :: real) < 8450554340797999 / 2 ^ 53
   \<and> calculate_tensile_area (Fin (8450554340797999 / 2 ^ 53)) (Fin 1) = Inr (Fin 0)
   \<and> torque_to_safety_factor (Fin 1) (Fin (8450554340797999 / 2 ^ 53)) (Fin 1)
        (Fin (8450554340797999 / 2 ^ 53)) (Fin 1) (Fin 1)
       = Inl (ValueError ''Tensile area must be positive'')
   \<and> torque_to_safety_factor (Fin (1 / 2 ^ 1074)) (Fin 1) (Fin 4) (Fin 2) (Fin (1 / 2)) (Fin 1)
       = Inl (ValueError ''Stress must be positive'')"
proof -
  have eff: "effective_diameter (Fin (8450554340797999 / 2 ^ 53)) (Fin 1) = Fin 0"
    using fl_literal_9382 fl_double_9382 by (simp add: effective_diameter_def)
  have area: "calculate_tensile_area (Fin (8450554340797999 / 2 ^ 53)) (Fin 1) = Inr (Fin 0)"
    using fl_quarter_pi eff
    by (simp add: calculate_tensile_area_def py_truediv_f64_def)
  have first: "torque_to_safety_factor (Fin 1) (Fin (8450554340797999 / 2 ^ 53)) (Fin 1)
        (Fin (8450554340797999 / 2 ^ 53)) (Fin 1) (Fin 1)
       = Inl (ValueError ''Tensile area must be positive'')"
    using fl_double_9382 area
    by (simp add: torque_to_safety_factor_def estimate_preload_from_torque_def
        calculate_stress_from_preload_def py_truediv_f64_def)
  have m: "moderate 2" "moderate (1 / 2)"
    and e: "2 powi (- 100) \<le> \<bar>6894560669541492 / 2 ^ 52 :: real\<bar>"
    by (simp_all add: moderate_def)
  from tensile_area_positive[OF m effective_diameter_example e] obtain A
    where A: "calculate_tensile_area (Fin 2) (Fin (1 / 2)) = Inr (Fin A)" "0 < A"
    by blast
  have tiny: "fl (1 / 2 ^ 1074 / 4) = Fin 0"
    using fl_eqI[of "- 1076" "1 / 2 ^ 1074 / 4" "1 / 2 ^ 1074" 0]
    by (simp add: round_even_def max_double_def)
  have preload: "estimate_preload_from_torque (Fin (1 / 2 ^ 1074)) (Fin 1) (Fin 4) = Inr (Fin 0)"
    using fl_four tiny by (simp add: estimate_preload_from_torque_def py_truediv_f64_def)
  have stress: "calculate_stress_from_preload (Fin 0) (Fin A) = Inr (Fin 0)"
    using A(2) by (simp add: calculate_stress_from_preload_def py_truediv_f64_def)
  have second: "torque_to_safety_factor (Fin (1 / 2 ^ 1074)) (Fin 1) (Fin 4) (Fin 2)
        (Fin (1 / 2)) (Fin 1) = Inl (ValueError ''Stress must be positive'')"
    using A(1) preload stress
    by (simp add: torque_to_safety_factor_def calculate_safety_factor_def)
  from area first second show ?thesis by simp
qed

text \<open>
  C5, amended. For every torque \<open>T\<close>, screw diameter \<open>d\<close>, nut factor \<open>K\<close>, yield
  strength, nominal diameter \<open>dn\<close> and pitch \<open>p\<close> that are moderate (positive, between
  \<open>2 ^ (- 100)\<close> and \<open>2 ^ 100\<close>), and such that the effective diameter
  \<open>dn - 0.9382 * p\<close> the code computes is at least \<open>2 ^ (- 100)\<close> in magnitude, the
  composition of \<open>estimate_preload_from_torque\<close>, \<open>calculate_stress_from_preload\<close> and
  \<open>calculate_safety_factor\<close>, with the tensile area derived from \<open>dn\<close> and \<open>p\<close>, raises
  nothing and returns a finite positive safety factor.
\<close>

theorem torque_to_safety_factor_positive:
  assumes T: "moderate T" and d: "moderate d" and K: "moderate K"
    and dn: "moderate dn" and p: "moderate p" and ys: "moderate ys"
    and eff: "effective_diameter (Fin dn) (Fin p) = Fin e" and e: "2 powi (- 100) \<le> \<bar>e\<bar>"
  shows "\<exists>sf. torque_to_safety_factor (Fin T) (Fin d) (Fin K) (Fin dn) (Fin p) (Fin ys)
               = Inr (Fin sf) \<and> 0 < sf"
proof -
  note pos = moderate_pos[OF T] moderate_pos[OF d] moderate_pos[OF K] moderate_pos[OF ys]
  from tensile_area_positive[OF dn p eff e] obtain A
    where area: "calculate_tensile_area (Fin dn) (Fin p) = Inr (Fin A)"
      and Apos: "0 < A" and Amag: "mag (- 201) 202 A"
    by blast
  \<comment> \<open>the preload\<close>
  define Kd where "Kd = rnd (K * d)"
  have Kdm: "mag (- 200) 200 (K * d)"
    using mag_mult[OF moderate_mag[OF K] moderate_mag[OF d]] by simp
  have Kd: "fl (K * d) = Fin Kd" "mag (- 200) 200 Kd"
    unfolding Kd_def using fl_mag[OF Kdm] by simp_all
  have Kdpos: "0 < Kd" unfolding Kd_def
    using Kdm pos by (intro rnd_pos[where a = "- 200"]) simp_all
  define F where "F = rnd (T / Kd)"
  have Fm: "mag (- 300) 300 (T / Kd)"
    using mag_div[OF moderate_mag[OF T] Kd(2)] by simp
  have F: "fl (T / Kd) = Fin F" "mag (- 300) 300 F"
    unfolding F_def using fl_mag[OF Fm] by simp_all
  have Fpos: "0 < F" unfolding F_def
    using Fm pos Kdpos by (intro rnd_pos[where a = "- 300"]) simp_all
  have preload: "estimate_preload_from_torque (Fin T) (Fin d) (Fin K) = Inr (Fin F)"
    using pos Kdpos by (simp add: estimate_preload_from_torque_def py_truediv_f64_def Kd(1) F(1))
  \<comment> \<open>the stress\<close>
  define S where "S = rnd (F / A)"
  have Sm: "mag (- 502) 501 (F / A)" using mag_div[OF F(2) Amag] by simp
  have S: "fl (F / A) = Fin S" "mag (- 502) 501 S"
    unfolding S_def using fl_mag[OF Sm] by simp_all
  have Spos: "0 < S" unfolding S_def
    using Sm Fpos Apos by (intro rnd_pos[where a = "- 502"]) simp_all
  have stress: "calculate_stress_from_preload (Fin F) (Fin A) = Inr (Fin S)"
    using Apos by (simp add: calculate_stress_from_preload_def py_truediv_f64_def S(1))
  \<comment> \<open>the safety factor\<close>
  define sf where "sf = rnd (ys / S)"
  have sfm: "mag (- 601) 602 (ys / S)" using mag_div[OF moderate_mag[OF ys] S(2)] by simp
  have sf: "fl (ys / S) = Fin sf" "mag (- 601) 602 sf"
    unfolding sf_def using fl_mag[OF sfm] by simp_all
  have sfpos: "0 < sf" unfolding sf_def
    using sfm pos Spos by (intro rnd_pos[where a = "- 601"]) simp_all
  have safety: "calculate_safety_factor (Fin S) (Fin ys) = Inr (Fin sf)"
    using Spos pos by (simp add: calculate_safety_factor_def py_truediv_f64_def sf(1))
  have "torque_to_safety_factor (Fin T) (Fin d) (Fin K) (Fin dn) (Fin p) (Fin ys) = Inr (Fin sf)"
    by (simp add: torque_to_safety_factor_def area preload stress safety)
  with sfpos show ?thesis by blast
qed

text \<open>
  C5 (amended) on a 2 mm screw with pitch 0.5 mm, whose effective diameter is about
  1.5309 mm: torque 35, screw diameter 0.25 cm, nut factor 0.25 and yield strength 800.
\<close>

theorem torque_to_safety_factor_positive_witness:
  "moderate 35 \<and> moderate (1 / 4) \<and> moderate 2 \<and> moderate (1 / 2) \<and> moderate 800
   \<and> effective_diameter (Fin 2) (Fin (1 / 2)) = Fin (6894560669541492 / 2 ^ 52)
   \<and> 2 powi (- 100) \<le> \<bar>6894560669541492 / 2 ^ 52 :: real\<bar>
   \<and> (\<exists>sf. torque_to_safety_factor (Fin 35) (Fin (1 / 4)) (Fin (1 / 4)) (Fin 2) (Fin (1 / 2))
              (Fin 800) = Inr (Fin sf) \<and> 0 < sf)"
proof -
  have m: "moderate 35" "moderate (1 / 4)" "moderate 2" "moderate (1 / 2)" "moderate 800"
    and e: "2 powi (- 100) \<le> \<bar>6894560669541492 / 2 ^ 52 :: real\<bar>"
    by (simp_all add: moderate_def)
  from torque_to_safety_factor_positive[OF m(1) m(2) m(2) m(3) m(4) m(5)
      effective_diameter_example e] m e effective_diameter_example
  show ?thesis by blast
qed

end
